theory Spec2Isabelle
  imports Complex_Main "HOL-Library.Log_Nat"
begin

section \<open>JavaScript numbers\<close>

text \<open>
  The dashboard is TypeScript; every numeric value in it is an IEEE 754 binary64 number.
  A finite non-zero number is its exact rational value, \<open>Fin 0\<close> is \<open>+0\<close>, and
  \<open>NegZero\<close> is \<open>-0\<close>. Arithmetic computes the exact rational result and rounds it to
  the nearest representable value, ties to the even significand.
\<close>

datatype number = Fin rat | NegZero | PosInf | NegInf | NaN

definition pow2 :: "int \<Rightarrow> rat" where
  "pow2 e = (if 0 \<le> e then 2 ^ nat e else 1 / 2 ^ nat (- e))"

text \<open>For \<open>x > 0\<close>: the exponent \<open>e\<close> with \<open>2^e \<le> x < 2^(e+1)\<close>.\<close>

definition ilog2 :: "rat \<Rightarrow> int" where
  "ilog2 x =
     (let d = int (floorlog 2 (nat (fst (quotient_of x)))) - int (floorlog 2 (nat (snd (quotient_of x))))
      in if pow2 d \<le> x then d else d - 1)"

definition round_half_even :: "rat \<Rightarrow> int" where
  "round_half_even r =
     (let f = \<lfloor>r\<rfloor>; d = r - of_int f
      in if d < 1 / 2 then f else if 1 / 2 < d then f + 1 else if even f then f else f + 1)"

text \<open>The spacing of the binary64 values around \<open>x\<close>: 53 significant bits, subnormal below \<open>2^-1022\<close>.\<close>

definition quantum :: "rat \<Rightarrow> rat" where
  "quantum x = pow2 (max (ilog2 \<bar>x\<bar>) (- 1022) - 52)"

definition round_rat :: "rat \<Rightarrow> rat" where
  "round_rat x = (if x = 0 then 0 else of_int (round_half_even (x / quantum x)) * quantum x)"

text \<open>Rounding a non-zero exact result: overflow gives an infinity, underflow a signed zero.\<close>

definition fl :: "rat \<Rightarrow> number" where
  "fl x =
     (let r = round_rat x
      in if pow2 1024 \<le> \<bar>r\<bar> then (if 0 < x then PosInf else NegInf)
         else if r = 0 then (if x < 0 then NegZero else Fin 0)
         else Fin r)"

fun val :: "number \<Rightarrow> rat" where
  "val (Fin r) = r"
| "val NegZero = 0"
| "val PosInf = 0"
| "val NegInf = 0"
| "val NaN = 0"

fun is_inf :: "number \<Rightarrow> bool" where
  "is_inf PosInf = True"
| "is_inf NegInf = True"
| "is_inf (Fin r) = False"
| "is_inf NegZero = False"
| "is_inf NaN = False"

fun is_finite :: "number \<Rightarrow> bool" where
  "is_finite (Fin r) = True"
| "is_finite NegZero = True"
| "is_finite PosInf = False"
| "is_finite NegInf = False"
| "is_finite NaN = False"

text \<open>The sign bit (of a number that is not \<open>NaN\<close>).\<close>

fun sign_bit :: "number \<Rightarrow> bool" where
  "sign_bit (Fin r) = (r < 0)"
| "sign_bit NegZero = True"
| "sign_bit PosInf = False"
| "sign_bit NegInf = True"
| "sign_bit NaN = False"

definition signed_zero :: "bool \<Rightarrow> number" where
  "signed_zero neg = (if neg then NegZero else Fin 0)"

definition signed_inf :: "bool \<Rightarrow> number" where
  "signed_inf neg = (if neg then NegInf else PosInf)"

text \<open>JavaScript \<open>x / y\<close>.\<close>

definition num_div :: "number \<Rightarrow> number \<Rightarrow> number" where
  "num_div x y =
     (if x = NaN \<or> y = NaN then NaN
      else if is_inf x then (if is_inf y then NaN else signed_inf (sign_bit x \<noteq> sign_bit y))
      else if is_inf y then signed_zero (sign_bit x \<noteq> sign_bit y)
      else if val y = 0 then (if val x = 0 then NaN else signed_inf (sign_bit x \<noteq> sign_bit y))
      else if val x = 0 then signed_zero (sign_bit x \<noteq> sign_bit y)
      else fl (val x / val y))"

text \<open>JavaScript \<open>x * y\<close>.\<close>

definition num_mul :: "number \<Rightarrow> number \<Rightarrow> number" where
  "num_mul x y =
     (if x = NaN \<or> y = NaN then NaN
      else if is_inf x \<or> is_inf y then
        (if (is_finite x \<and> val x = 0) \<or> (is_finite y \<and> val y = 0) then NaN
         else signed_inf (sign_bit x \<noteq> sign_bit y))
      else if val x = 0 \<or> val y = 0 then signed_zero (sign_bit x \<noteq> sign_bit y)
      else fl (val x * val y))"

text \<open>JavaScript \<open>x + y\<close> on numbers.\<close>

definition num_add :: "number \<Rightarrow> number \<Rightarrow> number" where
  "num_add x y =
     (if x = NaN \<or> y = NaN then NaN
      else if is_inf x then (if is_inf y \<and> x \<noteq> y then NaN else x)
      else if is_inf y then y
      else if val x + val y = 0 then signed_zero (x = NegZero \<and> y = NegZero)
      else fl (val x + val y))"

fun num_neg :: "number \<Rightarrow> number" where
  "num_neg (Fin r) = (if r = 0 then NegZero else Fin (- r))"
| "num_neg NegZero = Fin 0"
| "num_neg PosInf = NegInf"
| "num_neg NegInf = PosInf"
| "num_neg NaN = NaN"

text \<open>JavaScript \<open>x - y\<close>.\<close>

definition num_sub :: "number \<Rightarrow> number \<Rightarrow> number" where
  "num_sub x y = num_add x (num_neg y)"

text \<open>JavaScript \<open>x < y\<close> and \<open>x >= y\<close>: both false when an operand is \<open>NaN\<close>.\<close>

definition num_lt :: "number \<Rightarrow> number \<Rightarrow> bool" where
  "num_lt x y =
     (if x = NaN \<or> y = NaN then False
      else if x = PosInf \<or> y = NegInf then False
      else if x = NegInf \<or> y = PosInf then True
      else val x < val y)"

definition num_ge :: "number \<Rightarrow> number \<Rightarrow> bool" where
  "num_ge x y = (if x = NaN \<or> y = NaN then False else \<not> num_lt x y)"

definition num_gt :: "number \<Rightarrow> number \<Rightarrow> bool" where
  "num_gt x y = num_lt y x"

text \<open>\<open>Math.floor\<close> and \<open>Math.min\<close> (of two arguments).\<close>

fun Math_floor :: "number \<Rightarrow> number" where
  "Math_floor (Fin r) = Fin (of_int \<lfloor>r\<rfloor>)"
| "Math_floor NegZero = NegZero"
| "Math_floor PosInf = PosInf"
| "Math_floor NegInf = NegInf"
| "Math_floor NaN = NaN"

definition Math_min :: "number \<Rightarrow> number \<Rightarrow> number" where
  "Math_min x y =
     (if x = NaN \<or> y = NaN then NaN
      else if num_lt x y then x
      else if num_lt y x then y
      else if x = NegZero then x else y)"

text \<open>Truthiness of a number: \<open>+0\<close>, \<open>-0\<close> and \<open>NaN\<close> are falsy.\<close>

fun truthy :: "number \<Rightarrow> bool" where
  "truthy (Fin r) = (r \<noteq> 0)"
| "truthy NegZero = False"
| "truthy PosInf = True"
| "truthy NegInf = True"
| "truthy NaN = False"

text \<open>
  A value of type \<open>number | null | undefined\<close> is a \<open>number option\<close>; \<open>None\<close> is the
  absent value. \<open>falsy\<close> is JavaScript's \<open>!x\<close>, and \<open>or_else x d\<close> is \<open>x || d\<close>.
\<close>

definition falsy :: "number option \<Rightarrow> bool" where
  "falsy x = (case x of None \<Rightarrow> True | Some v \<Rightarrow> \<not> truthy v)"

definition or_else :: "number option \<Rightarrow> number \<Rightarrow> number" where
  "or_else x d = (case x of None \<Rightarrow> d | Some v \<Rightarrow> if truthy v then v else d)"

text \<open>
  A default parameter value \<open>x = d\<close> applies to the undefined argument only. Where a
  property can also be \<open>null\<close> and the source tells the two apart, its type is
  \<open>number option option\<close>: \<open>None\<close> is undefined, \<open>Some None\<close> is \<open>null\<close>.
\<close>

definition default_to :: "'a option \<Rightarrow> 'a \<Rightarrow> 'a" where
  "default_to x d = (case x of None \<Rightarrow> d | Some v \<Rightarrow> v)"

text \<open>\<open>s || d\<close> on an optional string: the default replaces the absent and the empty string.\<close>

definition str_or :: "string option \<Rightarrow> string \<Rightarrow> string" where
  "str_or s d = (case s of None \<Rightarrow> d | Some t \<Rightarrow> if t = [] then d else t)"

subsection \<open>The host environment\<close>

text \<open>
  What the browser supplies and the repository does not define: the clock, the
  locale-dependent renderings, and \<open>Number::toString\<close> for the values whose shortest
  round-trip digits it has to find (everything but the integers below \<open>10^21\<close> and the
  one-digit multiples of a power of ten from \<open>10^21\<close> on).
\<close>

record env =
  Date_now :: number
  toLocaleString :: "number \<Rightarrow> string"
  toLocaleTimeString :: "number \<Rightarrow> string"
  toLocaleTimeString_hm :: "number \<Rightarrow> string"
  shortest_digits :: "rat \<Rightarrow> string"

subsection \<open>Rendering numbers\<close>

definition digit_char :: "nat \<Rightarrow> char" where
  "digit_char d = ''0123456789'' ! d"

fun dec_digits :: "nat \<Rightarrow> string" where
  "dec_digits n = (if n < 10 then [digit_char n] else dec_digits (n div 10) @ [digit_char (n mod 10)])"

declare dec_digits.simps [simp del]

text \<open>
  \<open>String(x)\<close>, as a template literal or a JSX text node renders a number. An integer
  below \<open>10^21\<close> is printed digit by digit. From \<open>10^21\<close> on the shortest digits that
  round to the value are printed in exponent notation; for \<open>d * 10^n\<close> with one digit
  \<open>d\<close> they are that digit, so the value prints as \<open>d\<close>, \<open>e+\<close> and \<open>n\<close>.
\<close>

definition Number_toString :: "env \<Rightarrow> number \<Rightarrow> string" where
  "Number_toString ev x =
     (case x of
        NaN \<Rightarrow> ''NaN''
      | PosInf \<Rightarrow> ''Infinity''
      | NegInf \<Rightarrow> ''-Infinity''
      | NegZero \<Rightarrow> ''0''
      | Fin r \<Rightarrow>
          if r = of_int \<lfloor>r\<rfloor> \<and> \<bar>r\<bar> < 10 ^ 21
          then (if r < 0 then ''-'' else '''') @ dec_digits (nat \<lfloor>\<bar>r\<bar>\<rfloor>)
          else if r = of_int \<lfloor>r\<rfloor> \<and> list_all (\<lambda>c. c = CHR ''0'') (tl (dec_digits (nat \<lfloor>\<bar>r\<bar>\<rfloor>)))
          then (if r < 0 then ''-'' else '''') @ [hd (dec_digits (nat \<lfloor>\<bar>r\<bar>\<rfloor>))] @ ''e+''
                 @ dec_digits (length (dec_digits (nat \<lfloor>\<bar>r\<bar>\<rfloor>)) - 1)
          else shortest_digits ev r)"

text \<open>
  \<open>Number.prototype.toFixed(f)\<close>: the integer \<open>n\<close> with \<open>n / 10^f\<close> nearest to the exact
  value (the larger one on a tie), printed with \<open>f\<close> digits after the point.
\<close>

definition fixed_digits :: "nat \<Rightarrow> nat \<Rightarrow> string" where
  "fixed_digits f n =
     (let m = dec_digits n;
          m' = (if f \<noteq> 0 \<and> length m \<le> f then replicate (f + 1 - length m) CHR ''0'' @ m else m);
          k = length m'
      in if f = 0 then m' else take (k - f) m' @ ''.'' @ drop (k - f) m')"

definition toFixed :: "env \<Rightarrow> nat \<Rightarrow> number \<Rightarrow> string" where
  "toFixed ev f x =
     (case x of
        NaN \<Rightarrow> ''NaN''
      | PosInf \<Rightarrow> ''Infinity''
      | NegInf \<Rightarrow> ''-Infinity''
      | NegZero \<Rightarrow> fixed_digits f 0
      | Fin r \<Rightarrow>
          (if r < 0 then ''-'' else '''') @
          (if 10 ^ 21 \<le> \<bar>r\<bar> then Number_toString ev (Fin \<bar>r\<bar>)
           else fixed_digits f (nat \<lfloor>\<bar>r\<bar> * 10 ^ f + 1 / 2\<rfloor>)))"

section \<open>Formatting utilities (client/lib/formatters.ts)\<close>

definition formatHashRate :: "env \<Rightarrow> number option \<Rightarrow> string" where
  "formatHashRate ev hash =
     (if falsy hash then ''0 H/s''
      else let h = the hash in
        if num_ge h (Fin (10 ^ 12)) then toFixed ev 2 (num_div h (Fin (10 ^ 12))) @ '' TH/s''
        else if num_ge h (Fin (10 ^ 9)) then toFixed ev 2 (num_div h (Fin (10 ^ 9))) @ '' GH/s''
        else if num_ge h (Fin (10 ^ 6)) then toFixed ev 2 (num_div h (Fin (10 ^ 6))) @ '' MH/s''
        else if num_ge h (Fin (10 ^ 3)) then toFixed ev 2 (num_div h (Fin (10 ^ 3))) @ '' KH/s''
        else toFixed ev 2 h @ '' H/s'')"

definition formatNumber :: "env \<Rightarrow> number option \<Rightarrow> string" where
  "formatNumber ev num = (if falsy num then ''0'' else toLocaleString ev (the num))"

text \<open>The exported \<open>formatXMR\<close>: eight decimal places.\<close>

definition formatXMR :: "env \<Rightarrow> number option \<Rightarrow> string" where
  "formatXMR ev atomic =
     (if falsy atomic then ''0'' else toFixed ev 8 (num_div (the atomic) (Fin (10 ^ 12))))"

text \<open>The chain visualisation's local \<open>formatXMR\<close>: four decimal places.\<close>

definition formatXMR_local :: "env \<Rightarrow> number option \<Rightarrow> string" where
  "formatXMR_local ev atomic =
     (if falsy atomic then ''0'' else toFixed ev 4 (num_div (the atomic) (Fin (10 ^ 12))))"

section \<open>Compact block feed (client/components/pool/BlockVisualizer.tsx)\<close>

record feed_block =
  fb_hash :: string
  fb_height :: number
  fb_ts :: number
  fb_difficulty :: number
  fb_reward :: number
  fb_fee :: number

record feed_props =
  fp_blocks :: "feed_block list option"
  fp_currentEffort :: "number option option"
  fp_networkDifficulty :: "number option"
  fp_poolHashRate :: "number option"

record feed_row =
  row_height :: string
  row_time :: string
  row_hash :: string
  row_reward :: string
  row_fee :: string
  row_just_found :: bool

datatype block_feed = Rows "feed_row list" | NoBlocksFoundYet

record feed_content =
  effort_label :: string
  bar_width :: number
  feed :: block_feed
  total_blocks :: string
  network_diff :: string
  pool_hash :: string

text \<open>\<open>SkeletonBars n\<close> is the loading state: \<open>n\<close> placeholder bars.\<close>

datatype feed_view = SkeletonBars nat | Feed feed_content

definition feed_row_of :: "env \<Rightarrow> feed_block \<Rightarrow> nat \<Rightarrow> feed_row" where
  "feed_row_of ev block index =
     \<lparr> row_height = ''#'' @ Number_toString ev (fb_height block),
       row_time = toLocaleTimeString ev (num_mul (fb_ts block) (Fin 1000)),
       row_hash = take 16 (fb_hash block) @ ''...'',
       row_reward = formatXMR ev (Some (fb_reward block)) @ '' XMR'',
       row_fee = ''Fee: '' @ formatXMR ev (Some (fb_fee block)),
       row_just_found = (index = 0) \<rparr>"

text \<open>
  The parameters are destructured with defaults (\<open>blocks = []\<close>, \<open>currentEffort = 0\<close>, ...),
  so the local \<open>blocks\<close> is the supplied sequence, or the empty one when the property
  is absent; \<open>isLoading\<close> compares that local with \<open>undefined\<close>.
\<close>

definition BlockchainVisual_feed :: "env \<Rightarrow> feed_props \<Rightarrow> feed_view" where
  "BlockchainVisual_feed ev props =
     (let blocks = Some (default_to (fp_blocks props) []);
          currentEffort = default_to (fp_currentEffort props) (Some (Fin 0));
          networkDifficulty = default_to (fp_networkDifficulty props) (Fin 0);
          poolHashRate = default_to (fp_poolHashRate props) (Fin 0);
          recentBlocks = (case blocks of None \<Rightarrow> [] | Some bs \<Rightarrow> take 5 bs);
          effortPercentage =
            Math_min (num_mul (num_div (or_else currentEffort (Fin 0)) (Fin 100)) (Fin 100)) (Fin 100);
          isLoading = (blocks = None)
      in if isLoading then SkeletonBars (length [1, 2, 3 :: nat])
         else Feed
           \<lparr> effort_label = str_or (map_option (toFixed ev 2) currentEffort) ''0'' @ ''%'',
             bar_width = Math_min effortPercentage (Fin 100),
             feed = (if length recentBlocks > 0
                     then Rows (map (\<lambda>(block, index). feed_row_of ev block index)
                                  (zip recentBlocks [0 ..< length recentBlocks]))
                     else NoBlocksFoundYet),
             total_blocks = formatNumber ev (Some (Fin (of_nat (length recentBlocks)))),
             network_diff = formatNumber ev (Some networkDifficulty),
             pool_hash = formatNumber ev (Some poolHashRate) \<rparr>)"

text \<open>What is on screen: the loading bars, or the empty-state message.\<close>

definition shows_loading :: "feed_view \<Rightarrow> bool" where
  "shows_loading v = (case v of SkeletonBars n \<Rightarrow> True | Feed c \<Rightarrow> False)"

definition shows_empty_message :: "feed_view \<Rightarrow> bool" where
  "shows_empty_message v = (case v of SkeletonBars n \<Rightarrow> False | Feed c \<Rightarrow> feed c = NoBlocksFoundYet)"

section \<open>Full chain visualisation (the component appended to client/lib/formatters.ts)\<close>

definition formatTimeAgo :: "env \<Rightarrow> number \<Rightarrow> string" where
  "formatTimeAgo ev ts =
     (let seconds = Math_floor (num_div (num_sub (Date_now ev) (num_mul ts (Fin 1000))) (Fin 1000))
      in if num_lt seconds (Fin 60) then Number_toString ev seconds @ ''s ago''
         else if num_lt seconds (Fin 3600)
           then Number_toString ev (Math_floor (num_div seconds (Fin 60))) @ ''m ago''
         else if num_lt seconds (Fin 86400)
           then Number_toString ev (Math_floor (num_div seconds (Fin 3600))) @ ''h ago''
         else Number_toString ev (Math_floor (num_div seconds (Fin 86400))) @ ''d ago'')"

record block =
  b_hash :: string
  b_height :: number
  b_ts :: number
  b_difficulty :: "number option"
  b_value :: number
  b_fee :: number
  b_effort :: "number option"
  b_solo :: "bool option"

record block_card =
  effortColor :: string
  effortBorder :: string
  effortGlow :: string
  card_latest :: bool
  card_height :: string
  card_badge :: string
  card_effort_class :: string
  card_effort :: string
  card_reward :: string
  card_age :: string
  card_hash :: string
  card_connector :: bool

definition BlockCard :: "env \<Rightarrow> block \<Rightarrow> nat \<Rightarrow> bool \<Rightarrow> block_card" where
  "BlockCard ev block index isLatest =
     (let effort = or_else (b_effort block) (Fin 0);
          isSolo = (b_solo block = Some True)
      in \<lparr> effortColor =
             (if num_lt effort (Fin 50) then ''from-green-500 to-green-600''
              else if num_lt effort (Fin 100) then ''from-cyan-500 to-blue-500''
              else if num_lt effort (Fin 150) then ''from-orange-500 to-amber-500''
              else ''from-red-500 to-pink-500''),
           effortBorder =
             (if num_lt effort (Fin 50) then ''border-green-500/50''
              else if num_lt effort (Fin 100) then ''border-cyan-500/50''
              else if num_lt effort (Fin 150) then ''border-orange-500/50''
              else ''border-red-500/50''),
           effortGlow =
             (if num_lt effort (Fin 50) then ''shadow-green-500/30''
              else if num_lt effort (Fin 100) then ''shadow-cyan-500/30''
              else if num_lt effort (Fin 150) then ''shadow-orange-500/30''
              else ''shadow-red-500/30''),
           card_latest = isLatest,
           card_height = ''#'' @ formatNumber ev (Some (b_height block)),
           card_badge = (if isSolo then ''SOLO'' else ''POOL''),
           card_effort_class = (if num_lt effort (Fin 100) then ''text-green-400'' else ''text-orange-400''),
           card_effort = toFixed ev 1 effort @ ''%'',
           card_reward = formatXMR_local ev (Some (b_value block)),
           card_age = formatTimeAgo ev (b_ts block),
           card_hash = take 8 (b_hash block) @ ''...'',
           card_connector = (index < 5) \<rparr>)"

text \<open>
  The pending block. Its \<open>pulseIntensity\<close> state (a random number resampled every
  100 ms) only tints the background and is not part of the model.
\<close>

record pending_block =
  estimatedSeconds :: number
  estimatedMinutes :: number
  pending_effort :: string
  pending_eta :: string

definition PendingBlock ::
  "env \<Rightarrow> number option option \<Rightarrow> number option \<Rightarrow> number option \<Rightarrow> pending_block" where
  "PendingBlock ev currentEffort' difficulty' poolHashRate' =
     (let currentEffort = default_to currentEffort' (Some (Fin 0));
          difficulty = default_to difficulty' (Fin 0);
          poolHashRate = default_to poolHashRate' (Fin 0);
          secs = (if truthy difficulty \<and> truthy poolHashRate
                  then Math_floor (num_div difficulty poolHashRate) else Fin 0);
          mins = Math_floor (num_div secs (Fin 60))
      in \<lparr> estimatedSeconds = secs,
           estimatedMinutes = mins,
           pending_effort = str_or (map_option (toFixed ev 1) currentEffort) ''0'' @ ''%'',
           pending_eta = ''~'' @ Number_toString ev mins @ ''m ETA'' \<rparr>)"

text \<open>
  The stats bar. JavaScript's division never fails; to make "a division by zero is
  performed" a value of the model, the two divisions by the sample count are written
  with \<open>checked_div\<close>, which reports a zero divisor instead of dividing.
\<close>

datatype arith_error = DivisionByZero

definition checked_div :: "number \<Rightarrow> number \<Rightarrow> arith_error + number" where
  "checked_div x y = (if is_finite y \<and> val y = 0 then Inl DivisionByZero else Inr (num_div x y))"

definition sum_effort :: "block list \<Rightarrow> number" where
  "sum_effort bs = foldl (\<lambda>acc b. num_add acc (or_else (b_effort b) (Fin 0))) (Fin 0) bs"

definition sum_value :: "block list \<Rightarrow> number" where
  "sum_value bs = foldl (\<lambda>acc b. num_add acc (or_else (Some (b_value b)) (Fin 0))) (Fin 0) bs"

definition sample_count :: "block list \<Rightarrow> number" where
  "sample_count blocks = Math_min (Fin (of_nat (length blocks))) (Fin 10)"

definition latest_height :: "env \<Rightarrow> block list option \<Rightarrow> string" where
  "latest_height ev blocks =
     (case blocks of
        None \<Rightarrow> ''-''
      | Some bs \<Rightarrow>
          if length bs \<noteq> 0 \<and> truthy (b_height (bs ! 0)) then formatNumber ev (Some (b_height (bs ! 0)))
          else ''-'')"

definition avg_effort :: "env \<Rightarrow> block list option \<Rightarrow> arith_error + string" where
  "avg_effort ev blocks =
     (case blocks of
        None \<Rightarrow> Inr (''0'' @ ''%'')
      | Some bs \<Rightarrow>
          if length (take 10 bs) > 0
          then (case checked_div (sum_effort (take 10 bs)) (sample_count bs) of
                  Inl e \<Rightarrow> Inl e
                | Inr q \<Rightarrow> Inr (toFixed ev 1 q @ ''%''))
          else Inr (''0'' @ ''%''))"

definition avg_reward :: "env \<Rightarrow> block list option \<Rightarrow> arith_error + string" where
  "avg_reward ev blocks =
     (case blocks of
        None \<Rightarrow> Inr ''0''
      | Some bs \<Rightarrow>
          if length (take 10 bs) > 0
          then (case checked_div (sum_value (take 10 bs)) (sample_count bs) of
                  Inl e \<Rightarrow> Inl e
                | Inr q \<Rightarrow> Inr (formatXMR_local ev (Some q)))
          else Inr ''0'')"

definition last_found :: "env \<Rightarrow> block list option \<Rightarrow> string" where
  "last_found ev blocks =
     (case blocks of
        None \<Rightarrow> ''-''
      | Some bs \<Rightarrow> if bs \<noteq> [] then formatTimeAgo ev (b_ts (bs ! 0)) else ''-'')"

record stats_bar =
  st_latest_height :: string
  st_avg_effort :: string
  st_avg_reward :: string
  st_last_found :: string

definition stats_row :: "env \<Rightarrow> block list option \<Rightarrow> arith_error + stats_bar" where
  "stats_row ev blocks =
     (case avg_effort ev blocks of
        Inl e \<Rightarrow> Inl e
      | Inr a \<Rightarrow>
          (case avg_reward ev blocks of
             Inl e \<Rightarrow> Inl e
           | Inr r \<Rightarrow>
               Inr \<lparr> st_latest_height = latest_height ev blocks,
                     st_avg_effort = a,
                     st_avg_reward = r,
                     st_last_found = last_found ev blocks \<rparr>))"

record chain_view =
  cv_pending :: pending_block
  cv_cards :: "block_card list"
  cv_stats :: "arith_error + stats_bar"

definition BlockchainVisual_chain ::
  "env \<Rightarrow> block list option \<Rightarrow> number option option \<Rightarrow> number option \<Rightarrow> number option \<Rightarrow> chain_view" where
  "BlockchainVisual_chain ev blocks currentEffort' networkDifficulty' poolHashRate' =
     (let currentEffort = default_to currentEffort' (Some (Fin 0));
          networkDifficulty = default_to networkDifficulty' (Fin 0);
          poolHashRate = default_to poolHashRate' (Fin 0)
      in \<lparr> cv_pending = PendingBlock ev (Some currentEffort) (Some networkDifficulty) (Some poolHashRate),
           cv_cards =
             (case blocks of
                None \<Rightarrow> []
              | Some bs \<Rightarrow>
                  map (\<lambda>(block, index). BlockCard ev block index (index = 0))
                    (zip (take 6 bs) [0 ..< length (take 6 bs)])),
           cv_stats = stats_row ev blocks \<rparr>)"

section \<open>Dashboard page (client/pages/Index.tsx)\<close>

record chart_point =
  cp_ts :: number
  cp_hs :: number

record series_point =
  sp_time :: string
  sp_pool :: number

definition chart_series_point :: "env \<Rightarrow> chart_point \<Rightarrow> series_point" where
  "chart_series_point ev point =
     \<lparr> sp_time = toLocaleTimeString_hm ev (cp_ts point),
       sp_pool = num_div (cp_hs point) (Fin (10 ^ 6)) \<rparr>"

text \<open>\<open>xs.slice(-48)\<close>: the last 48 elements, all of them when there are fewer.\<close>

definition slice_last :: "nat \<Rightarrow> 'a list \<Rightarrow> 'a list" where
  "slice_last n xs = drop (length xs - n) xs"

definition processedChartData :: "env \<Rightarrow> chart_point list option \<Rightarrow> series_point list" where
  "processedChartData ev chartData =
     (case chartData of
        None \<Rightarrow> []
      | Some points \<Rightarrow> slice_last 48 (map (chart_series_point ev) points))"

text \<open>The pool-statistics response, every field optional as the page reads it.\<close>

record mining_segment =
  seg_hashRate :: "number option"
  seg_miners :: "number option"
  seg_currentEffort :: "number option option"

record network_statistics =
  net_difficulty :: "number option"

record market_data =
  price_usd :: "number option"
  percent_change_24h :: "number option"

record payout_config =
  minimum :: "number option"

record pool_config =
  pplns_fee :: "number option"
  payout :: "payout_config option"
  maturity_depth :: "number option"

record pool_statistics =
  collective :: "mining_segment option"
  solo :: "mining_segment option"

record pool_stats =
  ps_pool_statistics :: "pool_statistics option"
  ps_network_statistics :: "network_statistics option"
  ps_market :: "market_data option"
  ps_config :: "pool_config option"
  ps_online :: "number option"

text \<open>What \<open>useQuery\<close> hands to the component: the data, the loading flag and the error.\<close>

record 'a query =
  q_data :: "'a option"
  q_isLoading :: bool
  q_error :: "string option"

text \<open>Optional chaining \<open>a?.f\<close> on an optional record with an optional field.\<close>

definition opt_field :: "'a option \<Rightarrow> ('a \<Rightarrow> 'b option) \<Rightarrow> 'b option" where
  "opt_field a f = (case a of None \<Rightarrow> None | Some r \<Rightarrow> f r)"

record stat_card =
  sc_label :: string
  sc_text :: string
  sc_subValue :: "string option"
  sc_trend :: "string option"
  sc_loading :: bool

datatype chart_section = AreaChart "series_point list" | ChartSkeleton

record config_panel =
  pool_fee :: number
  pool_fee_label :: string
  min_payout :: string
  block_maturity :: string
  online_users :: string

record dashboard =
  top_stats :: "stat_card list"
  block_panel :: feed_view
  hashrate_chart :: chart_section
  configuration :: config_panel

text \<open>
  The page: the full-page error view, or the dashboard. Of the dashboard the model keeps
  the top statistics strip, the block panel, the hash-rate chart and the pool
  configuration; the Network, Pool Mining, Solo Mining and Market panels format further
  fields of the same response in the same way.
\<close>

datatype page = ErrorView | Dashboard dashboard



definition lit_0_9 :: number where
  "lit_0_9 = fl (9 / 10)"

definition MoneroPool ::
  "env \<Rightarrow> pool_stats query \<Rightarrow> chart_point list query \<Rightarrow> feed_block list query \<Rightarrow> page" where
  "MoneroPool ev poolQ chartQ blocksQ =
     (let poolData = q_data poolQ;
          isLoading = q_isLoading poolQ;
          error = q_error poolQ;
          chartData = q_data chartQ;
          blocksData = q_data blocksQ;
          processed = processedChartData ev chartData;
          pool = opt_field (opt_field poolData ps_pool_statistics) collective;
          solo = opt_field (opt_field poolData ps_pool_statistics) solo;
          network = opt_field poolData ps_network_statistics;
          market = opt_field poolData ps_market;
          config = opt_field poolData ps_config;
          change = or_else (opt_field market percent_change_24h) (Fin 0);
          fee = or_else (opt_field config pplns_fee) lit_0_9
      in if error \<noteq> None then ErrorView
         else Dashboard
           \<lparr> top_stats =
               [ \<lparr> sc_label = ''Network Hash'',
                   sc_text = formatHashRate ev
                     (Some (num_div (or_else (opt_field network net_difficulty) (Fin 0)) (Fin 120))),
                   sc_subValue = None, sc_trend = None, sc_loading = isLoading \<rparr>,
                 \<lparr> sc_label = ''Pool Hash'',
                   sc_text = formatHashRate ev (opt_field pool seg_hashRate),
                   sc_subValue = None, sc_trend = None, sc_loading = isLoading \<rparr>,
                 \<lparr> sc_label = ''Miners Online'',
                   sc_text = formatNumber ev
                     (Some (num_add (or_else (opt_field pool seg_miners) (Fin 0))
                                    (or_else (opt_field solo seg_miners) (Fin 0)))),
                   sc_subValue = None, sc_trend = None, sc_loading = isLoading \<rparr>,
                 \<lparr> sc_label = ''XMR/USD'',
                   sc_text = ''$'' @ toFixed ev 2 (or_else (opt_field market price_usd) (Fin 0)),
                   sc_subValue =
                     Some ((if num_gt change (Fin 0) then ''+'' else []) @ toFixed ev 2 change @ ''%''),
                   sc_trend = Some (if num_gt change (Fin 0) then ''up'' else ''down''),
                   sc_loading = isLoading \<rparr> ],
             block_panel = BlockchainVisual_feed ev
               \<lparr> fp_blocks = blocksData,
                 fp_currentEffort = opt_field pool seg_currentEffort,
                 fp_networkDifficulty = opt_field network net_difficulty,
                 fp_poolHashRate = opt_field pool seg_hashRate \<rparr>,
             hashrate_chart = (if length processed > 0 then AreaChart processed else ChartSkeleton),
             configuration =
               \<lparr> pool_fee = fee,
                 pool_fee_label = Number_toString ev fee @ ''%'',
                 min_payout = formatXMR ev (opt_field (opt_field config payout) minimum) @ '' XMR'',
                 block_maturity = Number_toString ev (or_else (opt_field config maturity_depth) (Fin 30)) @ '' blocks'',
                 online_users = formatNumber ev (opt_field poolData ps_online) \<rparr> \<rparr>)"

section \<open>The specification's wording, as definitions\<close>

text \<open>
  The four effort tiers with the three style classes the source attaches to each, and
  the estimated time-to-block as the specification words it ("when both are positive").
\<close>

datatype tier = Green | Cyan | Orange | Red

fun tier_styles :: "tier \<Rightarrow> string \<times> string \<times> string" where
  "tier_styles Green = (''border-green-500/50'', ''from-green-500 to-green-600'', ''shadow-green-500/30'')"
| "tier_styles Cyan = (''border-cyan-500/50'', ''from-cyan-500 to-blue-500'', ''shadow-cyan-500/30'')"
| "tier_styles Orange = (''border-orange-500/50'', ''from-orange-500 to-amber-500'', ''shadow-orange-500/30'')"
| "tier_styles Red = (''border-red-500/50'', ''from-red-500 to-pink-500'', ''shadow-red-500/30'')"

definition card_styles :: "block_card \<Rightarrow> string \<times> string \<times> string" where
  "card_styles c = (effortBorder c, effortColor c, effortGlow c)"

definition spec_estimatedSeconds :: "number \<Rightarrow> number \<Rightarrow> number" where
  "spec_estimatedSeconds difficulty poolHashRate =
     (if num_gt difficulty (Fin 0) \<and> num_gt poolHashRate (Fin 0)
      then Math_floor (num_div difficulty poolHashRate) else Fin 0)"

text \<open>
  The two formatters as the specification words them: the zero string for an absent or
  zero input, otherwise the largest unit whose threshold the value meets (for hash
  rates) and a fixed number of decimal places. The specification's zero-safety
  property extends the zero string to every falsy input; the falsy numbers are the two
  zeros and NaN.
\<close>

definition is_zero :: "number \<Rightarrow> bool" where
  "is_zero x = (x = Fin 0 \<or> x = NegZero)"

definition spec_zero_input :: "number \<Rightarrow> bool" where
  "spec_zero_input x = (is_zero x \<or> x = NaN)"

definition hash_units :: "(rat \<times> string) list" where
  "hash_units = [(10 ^ 12, '' TH/s''), (10 ^ 9, '' GH/s''), (10 ^ 6, '' MH/s''), (10 ^ 3, '' KH/s'')]"

definition spec_formatHashRate :: "env \<Rightarrow> number option \<Rightarrow> string" where
  "spec_formatHashRate ev hash =
     (case hash of
        None \<Rightarrow> ''0 H/s''
      | Some h \<Rightarrow>
          if spec_zero_input h then ''0 H/s''
          else (case find (\<lambda>(threshold, unit). num_ge h (Fin threshold)) hash_units of
                  Some (threshold, unit) \<Rightarrow> toFixed ev 2 (num_div h (Fin threshold)) @ unit
                | None \<Rightarrow> toFixed ev 2 h @ '' H/s''))"

definition spec_formatXMR :: "env \<Rightarrow> nat \<Rightarrow> number option \<Rightarrow> string" where
  "spec_formatXMR ev places atomic =
     (case atomic of
        None \<Rightarrow> ''0''
      | Some a \<Rightarrow> if spec_zero_input a then ''0'' else toFixed ev places (num_div a (Fin (10 ^ 12))))"

definition is_digit :: "char \<Rightarrow> bool" where
  "is_digit c = (c \<in> set ''0123456789'')"

text \<open>A decimal numeral with exactly \<open>f\<close> digits after the point, possibly negative.\<close>

definition decimal_with_places :: "nat \<Rightarrow> string \<Rightarrow> bool" where
  "decimal_with_places f s =
     (\<exists>sign ip fp. s = sign @ ip @ ''.'' @ fp \<and> (sign = '''' \<or> sign = ''-'')
        \<and> ip \<noteq> [] \<and> list_all is_digit ip \<and> length fp = f \<and> list_all is_digit fp)"

text \<open>
  The two averages of the stats bar as the specification words them: the sum of the
  sampled blocks' efforts (defaulting to 0), and of their \<open>value\<close> fields, divided by
  the sample count.
\<close>

definition spec_effort_average :: "block list \<Rightarrow> number" where
  "spec_effort_average bs =
     (let sample = take (min (length bs) 10) bs
      in num_div (foldl num_add (Fin 0) (map (\<lambda>b. or_else (b_effort b) (Fin 0)) sample))
                 (Fin (of_nat (length sample))))"

definition spec_avg_effort :: "env \<Rightarrow> block list \<Rightarrow> string" where
  "spec_avg_effort ev bs = toFixed ev 1 (spec_effort_average bs) @ ''%''"

definition spec_avg_reward :: "env \<Rightarrow> block list \<Rightarrow> string" where
  "spec_avg_reward ev bs =
     (let sample = take (min (length bs) 10) bs
      in formatXMR_local ev
           (Some (num_div (foldl num_add (Fin 0) (map b_value sample)) (Fin (of_nat (length sample))))))"

text \<open>
  The reducer of the source adds \<open>b.value || 0\<close>. On the value fields this differs from
  adding the field itself only at NaN, which it counts as 0 (and at \<open>-0\<close>, which changes
  at most the sign of a zero sum, and no formatted result).
\<close>

definition nan_value_as_zero :: "block \<Rightarrow> block" where
  "nan_value_as_zero b = (if b_value b = NaN then b\<lparr>b_value := Fin 0\<rparr> else b)"

definition zeq :: "number \<Rightarrow> number \<Rightarrow> bool" where
  "zeq x y = (x = y \<or> (is_zero x \<and> is_zero y))"



section \<open>Fixtures for the worked examples\<close>

text \<open>A host environment to evaluate the examples in: a fixed clock and fixed renderings.\<close>

definition example_env :: env where
  "example_env =
     \<lparr> Date_now = Fin 1700000000000,
       toLocaleString = (\<lambda>x. ''n''),
       toLocaleTimeString = (\<lambda>x. ''h:mm:ss''),
       toLocaleTimeString_hm = (\<lambda>x. ''hh:mm''),
       shortest_digits = (\<lambda>r. if r = 8106479329266893 / 2 ^ 53 then ''0.9'' else ''d'') \<rparr>"

definition block_with_effort :: "number option \<Rightarrow> block" where
  "block_with_effort e =
     \<lparr> b_hash = ''00'', b_height = Fin 1, b_ts = Fin 1700000000, b_difficulty = None,
       b_value = Fin 1000000000000, b_fee = Fin 0, b_effort = e, b_solo = None \<rparr>"

definition block_with :: "number option \<Rightarrow> number \<Rightarrow> block" where
  "block_with e v =
     \<lparr> b_hash = ''00'', b_height = Fin 1, b_ts = Fin 1700000000, b_difficulty = None,
       b_value = v, b_fee = Fin 0, b_effort = e, b_solo = None \<rparr>"



section \<open>Lemmas on binary64 rounding\<close>

lemma pow2_powi: "pow2 e = 2 powi e"
  by (simp add: pow2_def power_int_def inverse_eq_divide power_one_over)

lemma pow2_pos: "0 < pow2 e"
  by (simp add: pow2_powi)

lemma pow2_add: "pow2 (a + b) = pow2 a * pow2 b"
  by (simp add: pow2_powi power_int_add)

lemma pow2_mono: "a \<le> b \<Longrightarrow> pow2 a \<le> pow2 b"
  by (simp add: pow2_powi power_int_increasing)

lemma pow2_nat: "pow2 (int n) = 2 ^ n"
  by (simp add: pow2_def)

lemma ilog2_bounds:
  assumes "0 < x"
  shows "pow2 (ilog2 x) \<le> x \<and> x < pow2 (ilog2 x + 1)"
proof -
  obtain a b where q: "quotient_of x = (a, b)" by (cases "quotient_of x")
  have b: "0 < b" using quotient_of_denom_pos[OF q] .
  have x: "x = of_int a / of_int b" using quotient_of_div[OF q] .
  have a: "0 < a" using assms b x by (simp add: zero_less_divide_iff)
  define la where "la = floorlog 2 (nat a)"
  define lb where "lb = floorlog 2 (nat b)"
  have A: "2 ^ (la - 1) \<le> nat a \<and> nat a < 2 ^ la"
    unfolding la_def using floorlog_bounds[of "nat a" 2] a by simp
  have B: "2 ^ (lb - 1) \<le> nat b \<and> nat b < 2 ^ lb"
    unfolding lb_def using floorlog_bounds[of "nat b" 2] b by simp
  have la: "0 < la" using A a by (cases la) auto
  have lb: "0 < lb" using B b by (cases lb) auto
  have A1: "pow2 (int la - 1) \<le> of_int a"
  proof -
    have "(2::rat) ^ (la - 1) \<le> of_nat (nat a)" using A by (metis of_nat_le_iff of_nat_numeral of_nat_power)
    moreover have "pow2 (int la - 1) = 2 ^ (la - 1)" using la pow2_nat[of "la - 1"] by (simp add: of_nat_diff)
    ultimately show ?thesis using a by simp
  qed
  have A2: "of_int a < pow2 (int la)"
  proof -
    have "of_nat (nat a) < (2::rat) ^ la" using A by (metis of_nat_less_iff of_nat_numeral of_nat_power)
    then show ?thesis using a by (simp add: pow2_nat)
  qed
  have B1: "pow2 (int lb - 1) \<le> of_int b"
  proof -
    have "(2::rat) ^ (lb - 1) \<le> of_nat (nat b)" using B by (metis of_nat_le_iff of_nat_numeral of_nat_power)
    moreover have "pow2 (int lb - 1) = 2 ^ (lb - 1)" using lb pow2_nat[of "lb - 1"] by (simp add: of_nat_diff)
    ultimately show ?thesis using b by simp
  qed
  have B2: "of_int b < pow2 (int lb)"
  proof -
    have "of_nat (nat b) < (2::rat) ^ lb" using B by (metis of_nat_less_iff of_nat_numeral of_nat_power)
    then show ?thesis using b by (simp add: pow2_nat)
  qed
  define d where "d = int la - int lb"
  have bq: "(0::rat) < of_int b" using b by simp
  have up: "x < pow2 (d + 1)"
  proof -
    have "of_int a < pow2 (d + 1) * pow2 (int lb - 1)"
      using A2 by (simp add: pow2_add[symmetric] d_def)
    also have "\<dots> \<le> pow2 (d + 1) * of_int b"
      using B1 pow2_pos[of "d + 1"] by simp
    finally show ?thesis using bq by (simp add: x pos_divide_less_eq)
  qed
  have lo: "pow2 (d - 1) \<le> x"
  proof -
    have "pow2 (d - 1) * of_int b \<le> pow2 (d - 1) * pow2 (int lb)"
      using B2 pow2_pos[of "d - 1"] by simp
    also have "\<dots> = pow2 (int la - 1)" by (simp add: pow2_add[symmetric] d_def)
    also have "\<dots> \<le> of_int a" using A1 .
    finally show ?thesis using bq by (simp add: x pos_le_divide_eq)
  qed
  have "ilog2 x = (if pow2 d \<le> x then d else d - 1)"
    by (simp add: ilog2_def q la_def lb_def d_def Let_def)
  then show ?thesis using up lo by (auto simp: not_le)
qed

lemma ilog2_eqI:
  assumes "pow2 e \<le> x" "x < pow2 (e + 1)"
  shows "ilog2 x = e"
proof -
  have x: "0 < x" using assms(1) pow2_pos[of e] by simp
  note b = ilog2_bounds[OF x]
  have "\<not> e < ilog2 x"
  proof
    assume "e < ilog2 x"
    then have "pow2 (e + 1) \<le> pow2 (ilog2 x)" by (intro pow2_mono) simp
    then show False using b assms by simp
  qed
  moreover have "\<not> ilog2 x < e"
  proof
    assume "ilog2 x < e"
    then have "pow2 (ilog2 x + 1) \<le> pow2 e" by (intro pow2_mono) simp
    then show False using b assms by simp
  qed
  ultimately show ?thesis by simp
qed

lemma rhe_cases:
  fixes r :: rat
  defines "f \<equiv> \<lfloor>r\<rfloor>"
  shows "(r - of_int f < 1/2 \<and> round_half_even r = f) \<or>
         (1/2 < r - of_int f \<and> round_half_even r = f + 1) \<or>
         (r - of_int f = 1/2 \<and> even f \<and> round_half_even r = f) \<or>
         (r - of_int f = 1/2 \<and> odd f \<and> round_half_even r = f + 1)"
  unfolding f_def round_half_even_def Let_def by auto

lemma int_close_eq:
  assumes "\<bar>(of_int a :: rat) - of_int b\<bar> < 1"
  shows "a = b"
proof -
  have "\<bar>(of_int (a - b) :: rat)\<bar> < of_int 1" using assms by simp
  then have "\<bar>a - b\<bar> < 1" unfolding of_int_abs[symmetric] of_int_less_iff .
  then show ?thesis by linarith
qed

lemma rhe_dist: "\<bar>r - of_int (round_half_even r)\<bar> \<le> 1/2"
proof -
  have f: "of_int \<lfloor>r\<rfloor> \<le> r" "r < of_int \<lfloor>r\<rfloor> + 1" by linarith+
  from rhe_cases[of r] f show ?thesis by (auto simp: abs_le_iff)
qed

lemma rhe_eqI:
  assumes "\<bar>r - of_int n\<bar> < 1/2"
  shows "round_half_even r = n"
proof -
  have "\<bar>(of_int (round_half_even r) :: rat) - of_int n\<bar> < 1"
    using assms rhe_dist[of r] by linarith
  then show ?thesis by (rule int_close_eq)
qed

lemma rhe_of_int [simp]: "round_half_even (of_int n) = n"
  by (rule rhe_eqI) simp

lemma rhe_ge:
  assumes "of_int n \<le> r"
  shows "n \<le> round_half_even r"
proof -
  have "n \<le> \<lfloor>r\<rfloor>" using assms by (simp add: le_floor_iff)
  moreover have "\<lfloor>r\<rfloor> \<le> round_half_even r" using rhe_cases[of r] by auto
  ultimately show ?thesis by simp
qed

lemma rhe_le:
  assumes "r \<le> of_int n"
  shows "round_half_even r \<le> n"
proof (cases "r = of_int n")
  case True then show ?thesis by simp
next
  case False
  then have "r < of_int n" using assms by simp
  then have "\<lfloor>r\<rfloor> < n" by (simp add: floor_less_iff)
  moreover have "round_half_even r \<le> \<lfloor>r\<rfloor> + 1" using rhe_cases[of r] by auto
  ultimately show ?thesis by simp
qed

lemma rhe_neg: "round_half_even (- r) = - round_half_even r"
proof (cases "r = of_int \<lfloor>r\<rfloor>")
  case True
  then obtain n where "r = of_int n" by metis
  then show ?thesis by (metis of_int_minus rhe_of_int)
next
  case False
  have f0: "of_int \<lfloor>r\<rfloor> \<le> r" "r < of_int \<lfloor>r\<rfloor> + 1" by linarith+
  have f: "of_int \<lfloor>r\<rfloor> < r" "r < of_int \<lfloor>r\<rfloor> + 1" using False f0 by (auto simp: less_le)
  have fl: "\<lfloor>- r\<rfloor> = - \<lfloor>r\<rfloor> - 1" using f by (intro floor_unique) (simp; linarith)+
  from rhe_cases[of r] rhe_cases[of "-r"] show ?thesis
    unfolding fl by (auto simp: algebra_simps)
qed

lemma pow2_0 [simp]: "pow2 0 = 1" by (simp add: pow2_def)

lemma ilog2_mono:
  assumes "0 < x" "x \<le> y"
  shows "ilog2 x \<le> ilog2 y"
proof (rule ccontr)
  assume "\<not> ilog2 x \<le> ilog2 y"
  then have "pow2 (ilog2 y + 1) \<le> pow2 (ilog2 x)" by (intro pow2_mono) simp
  moreover have "0 < y" using assms by simp
  ultimately show False using ilog2_bounds[OF assms(1)] ilog2_bounds[OF \<open>0 < y\<close>] assms(2) by linarith
qed

lemma quantum_pos: "0 < quantum x"
  by (simp add: quantum_def pow2_pos)

lemma quantum_neg [simp]: "quantum (- x) = quantum x"
  by (simp add: quantum_def)

lemma quantum_eq:
  assumes "pow2 e \<le> \<bar>x\<bar>" "\<bar>x\<bar> < pow2 (e + 1)" "- 1022 \<le> e"
  shows "quantum x = pow2 (e - 52)"
  using ilog2_eqI[OF assms(1,2)] assms(3) by (simp add: quantum_def max_def)

lemma round_rat_neg: "round_rat (- x) = - round_rat x"
  by (simp add: round_rat_def rhe_neg)

lemma round_rat_eval:
  assumes "pow2 e \<le> x" "x < pow2 (e + 1)" "- 1022 \<le> e"
    and "\<bar>x / pow2 (e - 52) - of_int n\<bar> < 1 / 2"
  shows "round_rat x = of_int n * pow2 (e - 52)"
proof -
  have x: "0 < x" using assms(1) pow2_pos[of e] by simp
  have q: "quantum x = pow2 (e - 52)" using quantum_eq[of e x] assms x by simp
  show ?thesis using x by (simp add: round_rat_def q rhe_eqI[OF assms(4)])
qed

lemma fl_Fin:
  assumes "round_rat x = r" "r \<noteq> 0" "\<bar>r\<bar> < pow2 1024"
  shows "fl x = Fin r"
  using assms by (simp add: fl_def Let_def)

lemma fl_eval_aux:
  assumes "pow2 e \<le> x" "x < pow2 (e + 1)" "- 1022 \<le> e"
    and "\<bar>x / pow2 (e - 52) - of_int n\<bar> < 1 / 2"
  shows "0 < of_int n * pow2 (e - 52)"
proof -
  have q: "0 < pow2 (e - 52)" by (rule pow2_pos)
  have "pow2 52 \<le> x / pow2 (e - 52)"
    using assms(1) q by (simp add: pos_le_divide_eq pow2_add[symmetric])
  moreover have "(1::rat) \<le> pow2 52" by (simp add: pow2_def)
  ultimately have "(0::rat) < of_int n" using assms(4) by linarith
  then show ?thesis using q by simp
qed

lemma fl_eval:
  assumes "pow2 e \<le> x" "x < pow2 (e + 1)" "- 1022 \<le> e"
    and "\<bar>x / pow2 (e - 52) - of_int n\<bar> < 1 / 2"
    and "of_int n * pow2 (e - 52) < pow2 1024"
  shows "fl x = Fin (of_int n * pow2 (e - 52))"
proof -
  define R where "R = of_int n * pow2 (e - 52)"
  have pos: "0 < R" unfolding R_def by (rule fl_eval_aux[OF assms(1-4)])
  have rr: "round_rat x = R" unfolding R_def by (rule round_rat_eval[OF assms(1-4)])
  have lt: "R < pow2 1024" using assms(5) by (simp add: R_def)
  have "R \<noteq> 0" "\<bar>R\<bar> < pow2 1024" using pos lt by simp_all
  from fl_Fin[OF rr this] show ?thesis by (simp add: R_def)
qed

lemma fl_eval_neg:
  assumes "pow2 e \<le> x" "x < pow2 (e + 1)" "- 1022 \<le> e"
    and "\<bar>x / pow2 (e - 52) - of_int n\<bar> < 1 / 2"
    and "of_int n * pow2 (e - 52) < pow2 1024"
  shows "fl (- x) = Fin (- (of_int n * pow2 (e - 52)))"
proof -
  define R where "R = of_int n * pow2 (e - 52)"
  have pos: "0 < R" unfolding R_def by (rule fl_eval_aux[OF assms(1-4)])
  have rr: "round_rat (- x) = - R" unfolding R_def round_rat_neg by (simp add: round_rat_eval[OF assms(1-4)])
  have lt: "R < pow2 1024" using assms(5) by (simp add: R_def)
  have "- R \<noteq> 0" "\<bar>- R\<bar> < pow2 1024" using pos lt by simp_all
  from fl_Fin[OF rr this] show ?thesis by (simp add: R_def)
qed

lemma fl_exact:
  assumes "pow2 e \<le> x" "x < pow2 (e + 1)" "- 1022 \<le> e" "e \<le> 1023"
    and "x / pow2 (e - 52) = of_int n"
  shows "fl x = Fin x"
proof -
  have q: "0 < pow2 (e - 52)" by (rule pow2_pos)
  have eq: "of_int n * pow2 (e - 52) = x" using assms(5) q by (simp add: field_simps)
  have "pow2 (e + 1) \<le> pow2 1024" using assms(4) by (intro pow2_mono) simp
  then have "of_int n * pow2 (e - 52) < pow2 1024" using eq assms(2) by simp
  from fl_eval[OF assms(1-3) _ this] assms(5) eq show ?thesis by simp
qed

lemma fl_exact_neg:
  assumes "pow2 e \<le> x" "x < pow2 (e + 1)" "- 1022 \<le> e" "e \<le> 1023"
    and "x / pow2 (e - 52) = of_int n"
  shows "fl (- x) = Fin (- x)"
proof -
  have q: "0 < pow2 (e - 52)" by (rule pow2_pos)
  have eq: "of_int n * pow2 (e - 52) = x" using assms(5) q by (simp add: field_simps)
  have "pow2 (e + 1) \<le> pow2 1024" using assms(4) by (intro pow2_mono) simp
  then have "of_int n * pow2 (e - 52) < pow2 1024" using eq assms(2) by simp
  from fl_eval_neg[OF assms(1-3) _ this] assms(5) eq show ?thesis by simp
qed

lemma fl_int:
  assumes "0 < n" "n < 2 ^ 53"
  shows "fl (of_int n) = Fin (of_int n)"
proof -
  define x :: rat where "x = of_int n"
  have "1 \<le> n" using assms(1) by simp
  then have x1: "1 \<le> x" unfolding x_def by (metis of_int_1 of_int_le_iff)
  have "(of_int n :: rat) < of_int (2 ^ 53)" using assms(2) unfolding of_int_less_iff .
  then have x2: "x < 2 ^ 53" by (simp add: x_def)
  have x0: "0 < x" using x1 by simp
  note x = x0 x1 x2
  define e where "e = ilog2 x"
  have b: "pow2 e \<le> x" "x < pow2 (e + 1)" using ilog2_bounds[OF x(1)] by (simp_all add: e_def)
  have e0: "0 \<le> e"
  proof (rule ccontr)
    assume "\<not> 0 \<le> e"
    then have "pow2 (e + 1) \<le> pow2 0" by (intro pow2_mono) simp
    then show False using b x by simp
  qed
  have e52: "e \<le> 52"
  proof (rule ccontr)
    assume "\<not> e \<le> 52"
    then have "pow2 53 \<le> pow2 e" by (intro pow2_mono) simp
    moreover have "pow2 53 = 2 ^ 53" by (simp add: pow2_def)
    ultimately show False using b x by simp
  qed
  have "pow2 (e - 52) = 1 / 2 ^ nat (52 - e)"
    using e52 by (cases "e = 52") (simp_all add: pow2_def)
  then have "x / pow2 (e - 52) = of_int (n * 2 ^ nat (52 - e))" by (simp add: x_def)
  from fl_exact[OF b _ _ this] e0 e52 show ?thesis by (simp add: x_def)
qed

lemma fl_numeral [simp]: "numeral k < (2::int) ^ 53 \<Longrightarrow> fl (numeral k) = Fin (numeral k)"
  using fl_int[of "numeral k"] by simp

lemma fl_one [simp]: "fl 1 = Fin 1"
  using fl_int[of 1] by simp

lemma fl_neg: "x \<noteq> 0 \<Longrightarrow> fl (- x) = num_neg (fl x)"
  by (auto simp: fl_def Let_def round_rat_neg)

lemma fl_neg_numeral [simp]: "numeral k < (2::int) ^ 53 \<Longrightarrow> fl (- numeral k) = Fin (- numeral k)"
  by (simp add: fl_neg)

subsection \<open>Rounding is monotone\<close>

lemma round_rat_fixed_div:
  assumes "d \<noteq> 0" "round_rat d = d"
  shows "d / quantum d = of_int (round_half_even (d / quantum d))"
proof -
  have "of_int (round_half_even (d / quantum d)) * quantum d = d"
    using assms by (simp add: round_rat_def)
  then show ?thesis using quantum_pos[of d] by (simp add: field_simps)
qed

lemma quantum_cases:
  assumes "0 < x" "x \<le> y"
  shows "quantum x = quantum y \<or> (ilog2 x < ilog2 y \<and> - 1022 < ilog2 y)"
proof -
  have "ilog2 x \<le> ilog2 y" using assms by (rule ilog2_mono)
  moreover have "\<bar>x\<bar> = x" "\<bar>y\<bar> = y" using assms by simp_all
  ultimately show ?thesis by (auto simp: quantum_def max_def)
qed

lemma round_rat_lower:
  assumes "0 < d" "round_rat d = d" "d \<le> x"
  shows "d \<le> round_rat x"
proof -
  have x: "0 < x" using assms by simp
  have ax: "\<bar>x\<bar> = x" using x by simp
  from quantum_cases[OF assms(1,3)] show ?thesis
  proof
    assume q: "quantum d = quantum x"
    have "d / quantum x = of_int (round_half_even (d / quantum x))"
      using round_rat_fixed_div[of d] assms q by simp
    moreover have "d / quantum x \<le> x / quantum x"
      using assms(3) quantum_pos[of x] by (simp add: divide_right_mono)
    ultimately have "round_half_even (d / quantum x) \<le> round_half_even (x / quantum x)"
      by (metis rhe_ge)
    then have "(of_int (round_half_even (d / quantum x)) :: rat) \<le> of_int (round_half_even (x / quantum x))"
      by simp
    then have "of_int (round_half_even (d / quantum x)) * quantum x \<le> round_rat x"
      using x quantum_pos[of x] by (simp add: round_rat_def)
    moreover have "of_int (round_half_even (d / quantum x)) * quantum x = d"
      using assms(1,2) q by (simp add: round_rat_def)
    ultimately show ?thesis by simp
  next
    assume c: "ilog2 d < ilog2 x \<and> - 1022 < ilog2 x"
    define e where "e = ilog2 x"
    have q: "quantum x = pow2 (e - 52)" using c by (simp add: quantum_def ax e_def max_def)
    have b: "pow2 e \<le> x" using ilog2_bounds[OF x] by (simp add: e_def)
    have "pow2 52 \<le> x / pow2 (e - 52)"
      using b pow2_pos[of "e - 52"] by (simp add: pos_le_divide_eq flip: pow2_add)
    moreover have "pow2 52 = of_int (2 ^ 52)" by (simp add: pow2_def)
    ultimately have "2 ^ 52 \<le> round_half_even (x / pow2 (e - 52))" by (metis rhe_ge)
    then have "(of_int (2 ^ 52) :: rat) \<le> of_int (round_half_even (x / pow2 (e - 52)))"
      unfolding of_int_le_iff .
    then have "of_int (2 ^ 52) * pow2 (e - 52) \<le> round_rat x"
      using x pow2_pos[of "e - 52"] by (simp add: round_rat_def q)
    moreover have "of_int (2 ^ 52) * pow2 (e - 52) = pow2 e"
    proof -
      have "pow2 52 * pow2 (e - 52) = pow2 e" by (simp flip: pow2_add)
      then show ?thesis by (simp add: pow2_def)
    qed
    moreover have "d < pow2 (ilog2 d + 1)" using ilog2_bounds[OF assms(1)] by simp
    moreover have "pow2 (ilog2 d + 1) \<le> pow2 e" using c by (intro pow2_mono) (simp add: e_def)
    ultimately show ?thesis by linarith
  qed
qed

lemma round_rat_upper:
  assumes "0 < x" "x \<le> d" "round_rat d = d"
  shows "round_rat x \<le> d"
proof -
  have d: "0 < d" using assms by simp
  have ax: "\<bar>x\<bar> = x" using assms by simp
  have ad: "\<bar>d\<bar> = d" using d by simp
  from quantum_cases[OF assms(1,2)] show ?thesis
  proof
    assume q: "quantum x = quantum d"
    have "d / quantum x = of_int (round_half_even (d / quantum x))"
      using round_rat_fixed_div[of d] assms d q by simp
    moreover have "x / quantum x \<le> d / quantum x"
      using assms(2) quantum_pos[of x] by (simp add: divide_right_mono)
    ultimately have "round_half_even (x / quantum x) \<le> round_half_even (d / quantum x)"
      by (metis rhe_le)
    then have "(of_int (round_half_even (x / quantum x)) :: rat) \<le> of_int (round_half_even (d / quantum x))"
      by simp
    then have "round_rat x \<le> of_int (round_half_even (d / quantum x)) * quantum x"
      using assms(1) quantum_pos[of x] by (simp add: round_rat_def)
    moreover have "of_int (round_half_even (d / quantum x)) * quantum x = d"
      using d assms(3) q by (simp add: round_rat_def)
    ultimately show ?thesis by simp
  next
    assume c: "ilog2 x < ilog2 d \<and> - 1022 < ilog2 d"
    define m where "m = max (ilog2 x) (- 1022)"
    have q: "quantum x = pow2 (m - 52)" by (simp add: quantum_def ax m_def)
    have m: "ilog2 x \<le> m" "m < ilog2 d" using c by (simp_all add: m_def)
    have "x < pow2 (ilog2 x + 1)" using ilog2_bounds[OF assms(1)] by simp
    moreover have "pow2 (ilog2 x + 1) \<le> pow2 (m + 1)" using m by (intro pow2_mono) simp
    ultimately have "x < pow2 (m + 1)" by simp
    moreover have eq53: "pow2 53 * pow2 (m - 52) = pow2 (m + 1)"
      using pow2_add[of 53 "m - 52"] by (simp add: add.commute)
    ultimately have "x / pow2 (m - 52) < pow2 53"
      unfolding pos_divide_less_eq[OF pow2_pos] by simp
    moreover have "pow2 53 = of_int (2 ^ 53)" by (simp add: pow2_def)
    ultimately have "round_half_even (x / pow2 (m - 52)) \<le> 2 ^ 53"
      by (metis rhe_le less_imp_le)
    then have "(of_int (round_half_even (x / pow2 (m - 52))) :: rat) \<le> of_int (2 ^ 53)"
      unfolding of_int_le_iff .
    then have "round_rat x \<le> of_int (2 ^ 53) * pow2 (m - 52)"
      using assms(1) pow2_pos[of "m - 52"] by (simp add: round_rat_def q)
    moreover have "of_int (2 ^ 53) * pow2 (m - 52) = pow2 (m + 1)"
      using eq53 by (simp add: pow2_def)
    moreover have "pow2 (m + 1) \<le> pow2 (ilog2 d)" using m by (intro pow2_mono) simp
    moreover have "pow2 (ilog2 d) \<le> d" using ilog2_bounds[OF d] by simp
    ultimately show ?thesis by linarith
  qed
qed

lemma round_rat_int:
  assumes "0 < n" "n < 2 ^ 53"
  shows "round_rat (of_int n) = of_int n"
  using fl_int[OF assms] by (auto simp: fl_def Let_def split: if_splits)

lemma round_rat_1: "round_rat 1 = 1"
  using round_rat_int[of 1] by simp

subsection \<open>Evaluating the renderings\<close>

lemma dec_digits_small: "n < 10 \<Longrightarrow> dec_digits n = [digit_char n]"
  by (simp add: dec_digits.simps)

lemma dec_digits_large: "10 \<le> n \<Longrightarrow> dec_digits n = dec_digits (n div 10) @ [digit_char (n mod 10)]"
  by (subst dec_digits.simps) simp

lemmas digits_eval = dec_digits_small dec_digits_large digit_char_def fixed_digits_def Let_def

lemma toFixed_eval:
  assumes "0 \<le> r" "r < 10 ^ 21" "of_int n \<le> r * 10 ^ f + 1 / 2" "r * 10 ^ f + 1 / 2 < of_int n + 1"
  shows "toFixed ev f (Fin r) = fixed_digits f (nat n)"
proof -
  have "\<lfloor>r * 10 ^ f + 1 / 2\<rfloor> = n" using assms(3,4) by (intro floor_unique) simp_all
  then show ?thesis using assms(1,2) by (simp add: toFixed_def)
qed

lemma toFixed_eval_neg:
  assumes "r < 0" "- r < 10 ^ 21" "of_int n \<le> - r * 10 ^ f + 1 / 2" "- r * 10 ^ f + 1 / 2 < of_int n + 1"
  shows "toFixed ev f (Fin r) = ''-'' @ fixed_digits f (nat n)"
proof -
  have "\<lfloor>- r * 10 ^ f + 1 / 2\<rfloor> = n" using assms(3,4) by (intro floor_unique) simp_all
  then show ?thesis using assms(1,2) by (simp add: toFixed_def abs_if)
qed

lemma digit_char_is_digit: "d < 10 \<Longrightarrow> is_digit (digit_char d)"
  unfolding is_digit_def digit_char_def by (rule nth_mem) simp

lemma dec_digits_digits: "list_all is_digit (dec_digits n)"
proof (induction n rule: dec_digits.induct)
  case (1 n)
  show ?case
  proof (cases "n < 10")
    case True
    then show ?thesis by (simp add: dec_digits_small digit_char_is_digit)
  next
    case False
    then show ?thesis using 1 by (simp add: dec_digits_large digit_char_is_digit)
  qed
qed

lemma dec_digits_nonempty: "dec_digits n \<noteq> []"
  by (subst dec_digits.simps) simp

lemma fixed_digits_shape:
  assumes "0 < f"
  shows "\<exists>ip fp. fixed_digits f n = ip @ ''.'' @ fp
           \<and> ip \<noteq> [] \<and> list_all is_digit ip \<and> length fp = f \<and> list_all is_digit fp"
proof -
  define m where "m = dec_digits n"
  define m' where "m' = (if length m \<le> f then replicate (f + 1 - length m) CHR ''0'' @ m else m)"
  have z: "is_digit CHR ''0''" by (simp add: is_digit_def)
  have dg: "list_all is_digit m'"
    using dec_digits_digits[of n] z by (simp add: m'_def m_def list_all_iff)
  have len: "f < length m'" by (simp add: m'_def)
  have eq: "fixed_digits f n = take (length m' - f) m' @ ''.'' @ drop (length m' - f) m'"
    using assms by (simp add: fixed_digits_def Let_def m'_def m_def)
  have 1: "take (length m' - f) m' \<noteq> []" using len by (cases m') auto
  have 2: "length (drop (length m' - f) m') = f" using len by simp
  have 3: "list_all is_digit (take (length m' - f) m')" "list_all is_digit (drop (length m' - f) m')"
    using dg by (auto simp: list_all_iff dest: in_set_takeD in_set_dropD)
  from eq 1 2 3 show ?thesis by blast
qed

lemma toFixed_decimal:
  assumes "0 < f" "is_finite x" "\<bar>val x\<bar> < 10 ^ 21"
  shows "decimal_with_places f (toFixed ev f x)"
proof (cases x)
  case (Fin r)
  obtain ip fp where s: "fixed_digits f (nat \<lfloor>\<bar>r\<bar> * 10 ^ f + 1 / 2\<rfloor>) = ip @ ''.'' @ fp"
      "ip \<noteq> []" "list_all is_digit ip" "length fp = f" "list_all is_digit fp"
    using fixed_digits_shape[OF assms(1)] by blast
  have "toFixed ev f x = (if r < 0 then ''-'' else '''') @ ip @ ''.'' @ fp"
    using Fin assms(3) s(1) by (simp add: toFixed_def)
  then show ?thesis unfolding decimal_with_places_def using s(2-5) by (intro exI[of _ "if r < 0 then ''-'' else ''''"] exI[of _ ip] exI[of _ fp]) simp
next
  case NegZero
  obtain ip fp where s: "fixed_digits f 0 = ip @ ''.'' @ fp"
      "ip \<noteq> []" "list_all is_digit ip" "length fp = f" "list_all is_digit fp"
    using fixed_digits_shape[OF assms(1)] by blast
  have "toFixed ev f x = '''' @ ip @ ''.'' @ fp" using NegZero s(1) by (simp add: toFixed_def)
  then show ?thesis unfolding decimal_with_places_def using s(2-5) by blast
qed (use assms in simp_all)

text \<open>
  The largest binary64 number below 1000.005, the least magnitude that \<open>toFixed(2)\<close>
  prints as 1000.01, is \<open>8796137002673111 / 2^43\<close>; the quotient 1000.005 itself rounds
  to it.
\<close>

lemma round_rat_below_1000_005:
  assumes "0 < x" "x \<le> 1000005 / 1000"
  shows "round_rat x \<le> 8796137002673111 / 2 ^ 43"
proof (cases "x \<le> 8796137002673111 / 2 ^ 43")
  case True
  have "round_rat (8796137002673111 / 2 ^ 43) = 8796137002673111 / 2 ^ 43"
    using round_rat_eval[of 9 "8796137002673111 / 2 ^ 43" 8796137002673111] by (simp add: pow2_def)
  then show ?thesis using True assms(1) by (intro round_rat_upper)
next
  case False
  then have lo: "pow2 9 \<le> x" by (simp add: pow2_def)
  have hi: "x < pow2 (9 + 1)" using assms(2) by (simp add: pow2_def)
  have "\<bar>x / pow2 (9 - 52) - of_int 8796137002673111\<bar> < 1 / 2"
    using False assms(2) by (simp add: pow2_def abs_less_iff field_simps)
  from round_rat_eval[OF lo hi _ this] have "round_rat x = 8796137002673111 / 2 ^ 43"
    by (simp add: pow2_def)
  then show ?thesis by simp
qed

lemma scaled_display:
  assumes "0 < T" "T \<le> r" "r \<le> 1000005 / 1000 * T"
  shows "\<exists>n. toFixed ev 2 (num_div (Fin r) (Fin T)) = fixed_digits 2 n \<and> 100 \<le> n \<and> n \<le> 100000"
proof -
  define x where "x = r / T"
  have x: "1 \<le> x" "x \<le> 1000005 / 1000" using assms by (simp_all add: x_def pos_le_divide_eq pos_divide_le_eq)
  define R where "R = round_rat x"
  have R1: "1 \<le> R" unfolding R_def using round_rat_lower[of 1 x] x by (simp add: round_rat_1)
  have "R \<le> 8796137002673111 / 2 ^ 43" unfolding R_def using round_rat_below_1000_005[of x] x by simp
  moreover have "(8796137002673111 / 2 ^ 43 :: rat) < 1000005 / 1000" by simp
  ultimately have R2: "R < 1000005 / 1000" by (rule le_less_trans)
  have "pow2 10 \<le> pow2 1024" by (intro pow2_mono) simp
  moreover have "pow2 10 = 1024" by (simp add: pow2_def)
  ultimately have "\<bar>R\<bar> < pow2 1024" using R1 R2 by simp
  then have f: "fl x = Fin R" using R1 by (intro fl_Fin) (simp_all add: R_def)
  have d: "num_div (Fin r) (Fin T) = Fin R"
    using assms f by (simp add: num_div_def x_def)
  define n where "n = \<lfloor>R * 10 ^ 2 + 1 / 2\<rfloor>"
  have n1: "100 \<le> n" unfolding n_def using R1 by (simp add: le_floor_iff)
  have n2: "n \<le> 100000"
  proof -
    have "R * 10 ^ 2 + 1 / 2 < of_int (100000 + 1)" using R2 by simp
    then have "n < 100000 + 1" unfolding n_def floor_less_iff .
    then show ?thesis by simp
  qed
  have "toFixed ev 2 (Fin R) = fixed_digits 2 (nat n)"
    using R1 R2 by (simp add: toFixed_def n_def)
  moreover have "100 \<le> nat n" "nat n \<le> 100000" using n1 n2 by linarith+
  ultimately show ?thesis using d by (intro exI[of _ "nat n"]) simp
qed

subsection \<open>The largest fixed-point rendering\<close>

text \<open>
  \<open>toFixed\<close> prints a decimal numeral for magnitudes below \<open>10^21\<close> and hands larger ones
  to the exponent notation of \<open>Number::toString\<close>. In binary64 the predecessor of
  \<open>10^21\<close> is \<open>10^21 - 2^17\<close>, so a real quotient rounds to a number below \<open>10^21\<close>
  exactly when it lies below the midpoint \<open>10^21 - 2^16\<close> (the tie goes to the even
  mantissa, that of \<open>10^21\<close>).
\<close>

lemma round_rat_nonneg:
  assumes "0 < x"
  shows "0 \<le> round_rat x"
proof -
  have "(of_int 0 :: rat) \<le> x / quantum x" using assms quantum_pos[of x] by simp
  then have "0 \<le> round_half_even (x / quantum x)" by (rule rhe_ge)
  then show ?thesis using assms quantum_pos[of x] by (simp add: round_rat_def)
qed

lemma round_rat_pred_1e21: "round_rat (10 ^ 21 - 2 ^ 17) = 10 ^ 21 - 2 ^ 17"
  using round_rat_eval[of 69 "10 ^ 21 - 2 ^ 17" 7629394531249999] by (simp add: pow2_def)

lemma round_rat_below_1e21:
  assumes "0 < x" "x < 10 ^ 21 - 2 ^ 16"
  shows "round_rat x < 10 ^ 21"
proof (cases "x \<le> 10 ^ 21 - 2 ^ 17")
  case True
  then have "round_rat x \<le> 10 ^ 21 - 2 ^ 17"
    using assms(1) by (intro round_rat_upper round_rat_pred_1e21)
  then show ?thesis by simp
next
  case False
  then have lo: "pow2 69 \<le> x" by (simp add: pow2_def)
  have hi: "x < pow2 (69 + 1)" using assms(2) by (simp add: pow2_def)
  have "\<bar>x / pow2 (69 - 52) - of_int 7629394531249999\<bar> < 1 / 2"
    using False assms(2) by (simp add: pow2_def abs_less_iff field_simps)
  from round_rat_eval[OF lo hi _ this] have "round_rat x = 10 ^ 21 - 2 ^ 17"
    by (simp add: pow2_def)
  then show ?thesis by simp
qed

lemma fl_below_1e21:
  assumes "x \<noteq> 0" "\<bar>x\<bar> < 10 ^ 21 - 2 ^ 16"
  shows "is_finite (fl x) \<and> \<bar>val (fl x)\<bar> < 10 ^ 21"
proof -
  have r: "\<bar>round_rat x\<bar> < 10 ^ 21"
  proof (cases "0 < x")
    case True
    then show ?thesis using round_rat_below_1e21[of x] round_rat_nonneg[of x] assms by simp
  next
    case False
    then have n: "0 < - x" using assms(1) by simp
    have "round_rat x = - round_rat (- x)" using round_rat_neg[of "- x"] by simp
    then show ?thesis using round_rat_below_1e21[of "- x"] round_rat_nonneg[of "- x"] n assms by simp
  qed
  have "pow2 70 \<le> pow2 1024" by (intro pow2_mono) simp
  moreover have "(10 :: rat) ^ 21 < pow2 70" by (simp add: pow2_def)
  ultimately have "\<bar>round_rat x\<bar> < pow2 1024" using r by simp
  then show ?thesis using r by (auto simp: fl_def Let_def)
qed

lemma fl_1e21: "fl (10 ^ 21) = Fin (10 ^ 21)"
  by (rule fl_exact[of 69 _ 7629394531250000]) (simp_all add: pow2_def)

text \<open>
  The binary64 number written \<open>1e33\<close> is 999999999999999945575230987042816, the least
  one that is at least \<open>10^33 - 65536 * 10^12\<close>; its quotient by \<open>10^12\<close> rounds to
  \<open>10^21\<close>.
\<close>

lemma fl_1e33_quotient:
  "fl (999999999999999945575230987042816 / 10 ^ 12) = Fin (10 ^ 21)"
  using fl_eval[of 69 "999999999999999945575230987042816 / 10 ^ 12" 7629394531250000]
  by (simp add: pow2_def)

lemma Number_toString_1e21: "Number_toString ev (Fin (10 ^ 21)) = ''1e+21''"
  by (simp add: Number_toString_def digits_eval)

lemma toFixed_1e21: "toFixed ev f (Fin (10 ^ 21)) = ''1e+21''"
  using Number_toString_1e21[of ev] by (simp add: toFixed_def)

lemma toFixed_neg_1e21: "toFixed ev f (Fin (- (10 ^ 21))) = ''-1e+21''"
  using Number_toString_1e21[of ev] by (simp add: toFixed_def)

lemma decimal_has_point: "decimal_with_places f s \<Longrightarrow> CHR ''.'' \<in> set s"
  by (auto simp: decimal_with_places_def)

lemma exponent_notation_no_decimal:
  "\<not> decimal_with_places f ''1e+21''" "\<not> decimal_with_places f ''-1e+21''"
  using decimal_has_point[of f "''1e+21''"] decimal_has_point[of f "''-1e+21''"] by auto

lemma num_range_finite:
  assumes "num_lt (Fin a) q" "num_lt q (Fin b)"
  shows "is_finite q \<and> a < val q \<and> val q < b"
  using assms by (cases q) (auto simp: num_lt_def)

lemma quotient_decimal:
  assumes "0 < f" "r \<noteq> 0" "0 < t" "\<bar>r\<bar> / t < 10 ^ 21 - 2 ^ 16"
  shows "decimal_with_places f (toFixed ev f (num_div (Fin r) (Fin t)))"
proof -
  have "\<bar>r / t\<bar> < 10 ^ 21 - 2 ^ 16" using assms(3,4) by (simp add: abs_divide)
  moreover have "r / t \<noteq> 0" using assms(2,3) by simp
  ultimately have "is_finite (fl (r / t)) \<and> \<bar>val (fl (r / t))\<bar> < 10 ^ 21" by (intro fl_below_1e21)
  moreover have "num_div (Fin r) (Fin t) = fl (r / t)" using assms(2,3) by (simp add: num_div_def)
  ultimately show ?thesis using assms(1) by (simp add: toFixed_decimal)
qed

subsection \<open>Sums up to the sign of a zero\<close>

lemma zeq_refl [simp]: "zeq x x"
  by (simp add: zeq_def)

lemma zeq_num_add:
  assumes "zeq a a'" "zeq b b'"
  shows "zeq (num_add a b) (num_add a' b')"
  using assms
  by (cases a; cases a'; cases b; cases b')
     (auto simp: zeq_def is_zero_def num_add_def signed_zero_def)

lemma zeq_foldl:
  assumes "list_all2 zeq xs ys" "zeq a a'"
  shows "zeq (foldl num_add a xs) (foldl num_add a' ys)"
  using assms by (induction xs ys arbitrary: a a' rule: list_all2_induct) (simp_all add: zeq_num_add)

lemma zeq_num_div:
  assumes "zeq a a'" "0 < n"
  shows "zeq (num_div a (Fin n)) (num_div a' (Fin n))"
  using assms by (cases a; cases a') (auto simp: zeq_def is_zero_def num_div_def signed_zero_def)

lemma zeq_formatXMR_local:
  assumes "zeq a a'"
  shows "formatXMR_local ev (Some a) = formatXMR_local ev (Some a')"
  using assms by (auto simp: zeq_def is_zero_def formatXMR_local_def falsy_def)

section \<open>Claims\<close>

subsection \<open>The compact feed: loading and empty states\<close>

text \<open>
  C1. The claim: the loading state (three placeholder bars) is shown exactly when the
  block sequence is undefined, and the empty-state message exactly when it is defined
  and empty. The component does otherwise at the undefined sequence: the default
  \<open>blocks = []\<close> has replaced it before \<open>isLoading\<close> is computed, so the loading state
  is not shown and the message "No blocks found yet" is.
\<close>

theorem feed_undefined_blocks_shows_empty_message:
  "\<not> shows_loading (BlockchainVisual_feed ev
        \<lparr> fp_blocks = None, fp_currentEffort = None, fp_networkDifficulty = None, fp_poolHashRate = None \<rparr>)
   \<and> shows_empty_message (BlockchainVisual_feed ev
        \<lparr> fp_blocks = None, fp_currentEffort = None, fp_networkDifficulty = None, fp_poolHashRate = None \<rparr>)"
  by (simp add: BlockchainVisual_feed_def shows_loading_def shows_empty_message_def Let_def default_to_def)

subsection \<open>The dashboard: error gating\<close>






subsection \<open>The dashboard: chart series\<close>

text \<open>
  C9. The derived chart series maps each raw point to its localized HH:MM time and to
  \<open>hs / 1e6\<close>, and keeps the last 48 points in the supplied order: a 100-point series
  yields 48 points (the raw points from index 52 on), a series of 48 or fewer points is
  kept whole, and an absent series yields the empty one.
\<close>

theorem chart_series_last_48:
  "processedChartData ev None = []
   \<and> processedChartData ev (Some points) = map (chart_series_point ev) (drop (length points - 48) points)
   \<and> length (processedChartData ev (Some points)) = min 48 (length points)
   \<and> (length points = 100 \<longrightarrow>
        length (processedChartData ev (Some points)) = 48
        \<and> processedChartData ev (Some points) = map (chart_series_point ev) (drop 52 points))
   \<and> (length points \<le> 48 \<longrightarrow> processedChartData ev (Some points) = map (chart_series_point ev) points)
   \<and> sp_pool (chart_series_point ev p) = num_div (cp_hs p) (Fin 1000000)
   \<and> sp_time (chart_series_point ev p) = toLocaleTimeString_hm ev (cp_ts p)"
  by (simp add: processedChartData_def slice_last_def drop_map chart_series_point_def)

theorem chart_series_last_48_witness:
  "length (processedChartData example_env (Some (replicate 100 \<lparr> cp_ts = Fin 0, cp_hs = Fin 2500000 \<rparr>))) = 48
   \<and> processedChartData example_env (Some [\<lparr> cp_ts = Fin 0, cp_hs = Fin 2500000 \<rparr>])
       = [chart_series_point example_env \<lparr> cp_ts = Fin 0, cp_hs = Fin 2500000 \<rparr>]"
  using chart_series_last_48[of example_env "replicate 100 \<lparr> cp_ts = Fin 0, cp_hs = Fin 2500000 \<rparr>"]
        chart_series_last_48[of example_env "[\<lparr> cp_ts = Fin 0, cp_hs = Fin 2500000 \<rparr>]"]
  by simp

subsection \<open>The dashboard: pool fee\<close>

lemma lit_0_9_value: "lit_0_9 = Fin (8106479329266893 / 2 ^ 53)"
  unfolding lit_0_9_def using fl_eval[of "-1" "9/10" 8106479329266893] by (simp add: pow2_def)

lemma Number_toString_0_9: "Number_toString example_env lit_0_9 = ''0.9''"
proof -
  have "\<lfloor>8106479329266893 / 2 ^ 53 :: rat\<rfloor> = 0" by (rule floor_unique) simp_all
  then show ?thesis unfolding lit_0_9_value by (simp add: Number_toString_def example_env_def)
qed

text \<open>
  C10. When the response's \<open>config.pplns_fee\<close> is present and equal to 0, the Pool
  Configuration panel shows the fee 0.9, exactly as when the field is absent: the
  default of \<open>pplns_fee || 0.9\<close> replaces every falsy value, and the text displayed in
  both cases is the rendering of the number 0.9 followed by the percent sign.
\<close>

theorem zero_fee_displays_default:
  assumes "q_error poolQ = None" "q_data poolQ = Some ps" "ps_config ps = Some cfg"
    and "pplns_fee cfg = Some (Fin 0)"
  shows "\<exists>d d'. MoneroPool ev poolQ chartQ blocksQ = Dashboard d
           \<and> MoneroPool ev (poolQ\<lparr>q_data := Some (ps\<lparr>ps_config := Some (cfg\<lparr>pplns_fee := None\<rparr>)\<rparr>)\<rparr>) chartQ blocksQ
               = Dashboard d'
           \<and> pool_fee (configuration d) = lit_0_9
           \<and> pool_fee (configuration d') = lit_0_9
           \<and> pool_fee_label (configuration d) = Number_toString ev lit_0_9 @ ''%''
           \<and> pool_fee_label (configuration d') = Number_toString ev lit_0_9 @ ''%''
           \<and> pool_fee_label (configuration d) = pool_fee_label (configuration d')"
  using assms by (simp add: MoneroPool_def Let_def opt_field_def or_else_def)

theorem zero_fee_displays_default_witness:
  "\<exists>d. MoneroPool example_env
         \<lparr> q_data = Some \<lparr> ps_pool_statistics = None, ps_network_statistics = None, ps_market = None,
                           ps_config = Some \<lparr> pplns_fee = Some (Fin 0), payout = None, maturity_depth = None \<rparr>,
                           ps_online = None \<rparr>,
           q_isLoading = False, q_error = None \<rparr>
         \<lparr> q_data = None, q_isLoading = False, q_error = None \<rparr>
         \<lparr> q_data = None, q_isLoading = False, q_error = None \<rparr> = Dashboard d
       \<and> pool_fee (configuration d) = Fin (8106479329266893 / 2 ^ 53)
       \<and> pool_fee_label (configuration d) = ''0.9%''"
proof -
  let ?cfg = "\<lparr> pplns_fee = Some (Fin 0), payout = None, maturity_depth = None \<rparr>"
  let ?ps = "\<lparr> ps_pool_statistics = None, ps_network_statistics = None, ps_market = None,
               ps_config = Some ?cfg, ps_online = None \<rparr>"
  let ?pq = "\<lparr> q_data = Some ?ps, q_isLoading = False, q_error = None \<rparr>"
  let ?cq = "\<lparr> q_data = None :: chart_point list option, q_isLoading = False, q_error = None \<rparr>"
  let ?bq = "\<lparr> q_data = None :: feed_block list option, q_isLoading = False, q_error = None \<rparr>"
  from zero_fee_displays_default[of ?pq ?ps ?cfg example_env ?cq ?bq]
  obtain d where "MoneroPool example_env ?pq ?cq ?bq = Dashboard d" "pool_fee (configuration d) = lit_0_9"
    "pool_fee_label (configuration d) = Number_toString example_env lit_0_9 @ ''%''"
    by auto
  then show ?thesis using Number_toString_0_9 by (auto simp: lit_0_9_value)
qed

subsection \<open>Effort tiers\<close>

lemma lit_49_999: "fl (49999 / 1000) = Fin (7036733680278045 / 2 ^ 47)"
  using fl_eval[of 5 "49999 / 1000" 7036733680278045] by (simp add: pow2_def)

lemma lit_99_999: "fl (99999 / 1000) = Fin (7036804049022222 / 2 ^ 46)"
  using fl_eval[of 6 "99999 / 1000" 7036804049022222] by (simp add: pow2_def)

lemma lit_149_999: "fl (149999 / 1000) = Fin (5277620628952711 / 2 ^ 45)"
  using fl_eval[of 7 "149999 / 1000" 5277620628952711] by (simp add: pow2_def)

lemma or_else_cases:
  "or_else x d = (if x = None \<or> x = Some (Fin 0) \<or> x = Some NegZero \<or> x = Some NaN then d else the x)"
proof (cases x)
  case None then show ?thesis by (simp add: or_else_def)
next
  case (Some v) then show ?thesis by (cases v) (simp_all add: or_else_def)
qed

lemma card_styles_cases:
  "card_styles (BlockCard ev block index isLatest) =
     (let effort = or_else (b_effort block) (Fin 0)
      in if num_lt effort (Fin 50) then tier_styles Green
         else if num_lt effort (Fin 100) then tier_styles Cyan
         else if num_lt effort (Fin 150) then tier_styles Orange
         else tier_styles Red)"
  by (simp add: card_styles_def BlockCard_def Let_def)

lemma num_lt_or_else_zero:
  "v \<noteq> NaN \<Longrightarrow> num_lt (or_else (Some v) (Fin 0)) c = num_lt v c"
  by (cases v) (auto simp: or_else_def num_lt_def)

lemma num_lt_Fin_mono: "num_lt v (Fin a) \<Longrightarrow> a \<le> b \<Longrightarrow> num_lt v (Fin b)"
  by (cases v) (auto simp: num_lt_def)

text \<open>
  C5. With \<open>effort = block.effort ?? 0\<close>, an effort below 50 gives the green tier, one
  in \<open>[50, 100)\<close> the cyan tier, one in \<open>[100, 150)\<close> the orange tier, and one of at
  least 150 the red tier; the tier fixes the card's border, gradient and glow classes
  together.
\<close>

theorem effort_tier_boundaries:
  "(num_lt (default_to (b_effort block) (Fin 0)) (Fin 50)
      \<longrightarrow> card_styles (BlockCard ev block index isLatest) = tier_styles Green)
   \<and> (num_ge (default_to (b_effort block) (Fin 0)) (Fin 50) \<and> num_lt (default_to (b_effort block) (Fin 0)) (Fin 100)
      \<longrightarrow> card_styles (BlockCard ev block index isLatest) = tier_styles Cyan)
   \<and> (num_ge (default_to (b_effort block) (Fin 0)) (Fin 100) \<and> num_lt (default_to (b_effort block) (Fin 0)) (Fin 150)
      \<longrightarrow> card_styles (BlockCard ev block index isLatest) = tier_styles Orange)
   \<and> (num_ge (default_to (b_effort block) (Fin 0)) (Fin 150)
      \<longrightarrow> card_styles (BlockCard ev block index isLatest) = tier_styles Red)"
proof (cases "b_effort block")
  case None
  then show ?thesis
    by (simp add: card_styles_cases default_to_def or_else_def num_lt_def num_ge_def)
next
  case (Some v)
  show ?thesis
  proof (cases "v = NaN")
    case True
    then show ?thesis using Some by (simp add: default_to_def num_lt_def num_ge_def)
  next
    case False
    have lt: "\<And>c. num_lt (or_else (Some v) (Fin 0)) c = num_lt v c"
      using False by (simp add: num_lt_or_else_zero)
    have m: "num_lt v (Fin 50) \<Longrightarrow> num_lt v (Fin 100)" "num_lt v (Fin 100) \<Longrightarrow> num_lt v (Fin 150)"
      by (erule num_lt_Fin_mono, simp)+
    show ?thesis using Some False m
      by (auto simp: card_styles_cases Let_def lt default_to_def num_ge_def)
  qed
qed

theorem effort_tier_boundaries_witness:
  "card_styles (BlockCard example_env (block_with_effort (Some (fl (49999 / 1000)))) 0 True) = tier_styles Green
   \<and> card_styles (BlockCard example_env (block_with_effort (Some (Fin 50))) 0 True) = tier_styles Cyan
   \<and> card_styles (BlockCard example_env (block_with_effort (Some (fl (99999 / 1000)))) 0 True) = tier_styles Cyan
   \<and> card_styles (BlockCard example_env (block_with_effort (Some (Fin 100))) 0 True) = tier_styles Orange
   \<and> card_styles (BlockCard example_env (block_with_effort (Some (fl (149999 / 1000)))) 0 True) = tier_styles Orange
   \<and> card_styles (BlockCard example_env (block_with_effort (Some (Fin 150))) 0 True) = tier_styles Red
   \<and> card_styles (BlockCard example_env (block_with_effort None) 0 True) = tier_styles Green"
proof -
  have 1: "card_styles (BlockCard example_env (block_with_effort (Some (fl (49999 / 1000)))) 0 True) = tier_styles Green"
    using effort_tier_boundaries[of "block_with_effort (Some (fl (49999 / 1000)))" example_env 0 True]
    by (simp add: block_with_effort_def default_to_def lit_49_999 num_lt_def num_ge_def)
  have 2: "card_styles (BlockCard example_env (block_with_effort (Some (Fin 50))) 0 True) = tier_styles Cyan"
    using effort_tier_boundaries[of "block_with_effort (Some (Fin 50))" example_env 0 True]
    by (simp add: block_with_effort_def default_to_def num_lt_def num_ge_def)
  have 3: "card_styles (BlockCard example_env (block_with_effort (Some (fl (99999 / 1000)))) 0 True) = tier_styles Cyan"
    using effort_tier_boundaries[of "block_with_effort (Some (fl (99999 / 1000)))" example_env 0 True]
    by (simp add: block_with_effort_def default_to_def lit_99_999 num_lt_def num_ge_def)
  have 4: "card_styles (BlockCard example_env (block_with_effort (Some (Fin 100))) 0 True) = tier_styles Orange"
    using effort_tier_boundaries[of "block_with_effort (Some (Fin 100))" example_env 0 True]
    by (simp add: block_with_effort_def default_to_def num_lt_def num_ge_def)
  have 5: "card_styles (BlockCard example_env (block_with_effort (Some (fl (149999 / 1000)))) 0 True) = tier_styles Orange"
    using effort_tier_boundaries[of "block_with_effort (Some (fl (149999 / 1000)))" example_env 0 True]
    by (simp add: block_with_effort_def default_to_def lit_149_999 num_lt_def num_ge_def)
  have 6: "card_styles (BlockCard example_env (block_with_effort (Some (Fin 150))) 0 True) = tier_styles Red"
    using effort_tier_boundaries[of "block_with_effort (Some (Fin 150))" example_env 0 True]
    by (simp add: block_with_effort_def default_to_def num_lt_def num_ge_def)
  have 7: "card_styles (BlockCard example_env (block_with_effort None) 0 True) = tier_styles Green"
    using effort_tier_boundaries[of "block_with_effort None" example_env 0 True]
    by (simp add: block_with_effort_def default_to_def num_lt_def num_ge_def)
  from 1 2 3 4 5 6 7 show ?thesis by blast
qed

subsection \<open>Pending block\<close>

text \<open>
  C6, as stated, fails: the guard \<open>difficulty && poolHashRate\<close> tests for non-zero
  values, not for positive ones, so a negative difficulty is divided and the estimate
  is not 0.
\<close>

theorem pending_eta_negative_difficulty:
  "estimatedSeconds (PendingBlock example_env None (Some (Fin (- 600))) (Some (Fin 10))) = Fin (- 60)
   \<and> spec_estimatedSeconds (Fin (- 600)) (Fin 10) = Fin 0
   \<and> estimatedSeconds (PendingBlock example_env None (Some (Fin (- 600))) (Some (Fin 10)))
       \<noteq> spec_estimatedSeconds (Fin (- 600)) (Fin 10)"
  by (simp add: PendingBlock_def Let_def default_to_def num_div_def spec_estimatedSeconds_def num_gt_def num_lt_def)

lemma not_neg_truthy_iff_gt:
  "\<not> num_lt x (Fin 0) \<Longrightarrow> truthy x = num_gt x (Fin 0)"
  by (cases x) (auto simp: num_lt_def num_gt_def)

text \<open>
  C6, amended. The estimate is \<open>floor(difficulty / poolHashRate)\<close> when both are truthy
  (present, non-zero and not NaN) and 0 otherwise, so no division happens when the hash
  rate is 0 or absent; it is the specification's estimate whenever neither value is
  negative. The minutes shown are \<open>floor(estimatedSeconds / 60)\<close>.
\<close>

theorem pending_block_eta:
  "estimatedSeconds (PendingBlock ev currentEffort difficulty poolHashRate) =
     (if truthy (default_to difficulty (Fin 0)) \<and> truthy (default_to poolHashRate (Fin 0))
      then Math_floor (num_div (default_to difficulty (Fin 0)) (default_to poolHashRate (Fin 0)))
      else Fin 0)
   \<and> (\<not> num_lt (default_to difficulty (Fin 0)) (Fin 0) \<and> \<not> num_lt (default_to poolHashRate (Fin 0)) (Fin 0)
      \<longrightarrow> estimatedSeconds (PendingBlock ev currentEffort difficulty poolHashRate)
          = spec_estimatedSeconds (default_to difficulty (Fin 0)) (default_to poolHashRate (Fin 0)))
   \<and> estimatedMinutes (PendingBlock ev currentEffort difficulty poolHashRate)
       = Math_floor (num_div (estimatedSeconds (PendingBlock ev currentEffort difficulty poolHashRate)) (Fin 60))
   \<and> pending_eta (PendingBlock ev currentEffort difficulty poolHashRate)
       = ''~'' @ Number_toString ev (estimatedMinutes (PendingBlock ev currentEffort difficulty poolHashRate)) @ ''m ETA''"
  by (simp add: PendingBlock_def Let_def spec_estimatedSeconds_def not_neg_truthy_iff_gt)

theorem pending_block_eta_witness:
  "estimatedSeconds (PendingBlock example_env None (Some (Fin 600)) (Some (Fin 10))) = Fin 60
   \<and> spec_estimatedSeconds (Fin 600) (Fin 10) = Fin 60
   \<and> estimatedMinutes (PendingBlock example_env None (Some (Fin 600)) (Some (Fin 10))) = Fin 1
   \<and> pending_eta (PendingBlock example_env None (Some (Fin 600)) (Some (Fin 10))) = ''~1m ETA''
   \<and> estimatedSeconds (PendingBlock example_env None (Some (Fin 600)) (Some (Fin 0))) = Fin 0
   \<and> estimatedSeconds (PendingBlock example_env None (Some (Fin 600)) None) = Fin 0"
proof -
  let ?P = "PendingBlock example_env None (Some (Fin 600)) (Some (Fin 10))"
  note A = pending_block_eta[of example_env None "Some (Fin 600)" "Some (Fin 10)"]
  have s: "estimatedSeconds ?P = Fin 60"
    using A[THEN conjunct1] by (simp add: default_to_def num_div_def)
  have sp: "spec_estimatedSeconds (Fin 600) (Fin 10) = Fin 60"
    using A[THEN conjunct2, THEN conjunct1] s by (simp add: default_to_def num_lt_def)
  have m: "estimatedMinutes ?P = Fin 1"
    using A[THEN conjunct2, THEN conjunct2, THEN conjunct1] by (simp add: s num_div_def)
  have l: "pending_eta ?P = ''~1m ETA''"
    using A[THEN conjunct2, THEN conjunct2, THEN conjunct2] by (simp add: m Number_toString_def digits_eval)
  have z: "estimatedSeconds (PendingBlock example_env None (Some (Fin 600)) (Some (Fin 0))) = Fin 0"
    using pending_block_eta[of example_env None "Some (Fin 600)" "Some (Fin 0)", THEN conjunct1]
    by (simp add: default_to_def)
  have n: "estimatedSeconds (PendingBlock example_env None (Some (Fin 600)) None) = Fin 0"
    using pending_block_eta[of example_env None "Some (Fin 600)" None, THEN conjunct1]
    by (simp add: default_to_def)
  from s sp m l z n show ?thesis by blast
qed

subsection \<open>Stats bar\<close>

lemma sample_count_Fin:
  "sample_count bs = Fin (of_nat (min (length bs) 10))"
  by (auto simp: sample_count_def Math_min_def num_lt_def min_def)

lemma checked_div_sample_count:
  "bs \<noteq> [] \<Longrightarrow> checked_div x (sample_count bs) = Inr (num_div x (Fin (of_nat (min (length bs) 10))))"
  by (simp add: checked_div_def sample_count_Fin min_def)

lemma avg_effort_never_fails: "avg_effort ev blocks \<noteq> Inl DivisionByZero"
proof (cases blocks)
  case None then show ?thesis by (simp add: avg_effort_def)
next
  case (Some bs) then show ?thesis
    by (cases "bs = []") (simp_all add: avg_effort_def checked_div_sample_count)
qed

lemma avg_reward_never_fails: "avg_reward ev blocks \<noteq> Inl DivisionByZero"
proof (cases blocks)
  case None then show ?thesis by (simp add: avg_reward_def)
next
  case (Some bs) then show ?thesis
    by (cases "bs = []") (simp_all add: avg_reward_def checked_div_sample_count)
qed

text \<open>
  C8. For an absent or empty block sequence the stats bar shows a dash for the latest
  height and for the last-found age, \<open>0%\<close> for the average effort and \<open>0\<close> for the
  average reward; and for no block sequence at all does a division by the sample count
  meet a zero divisor.
\<close>

theorem stats_row_empty_or_absent:
  "stats_row ev None =
     Inr \<lparr> st_latest_height = ''-'', st_avg_effort = ''0%'', st_avg_reward = ''0'', st_last_found = ''-'' \<rparr>
   \<and> stats_row ev (Some []) =
     Inr \<lparr> st_latest_height = ''-'', st_avg_effort = ''0%'', st_avg_reward = ''0'', st_last_found = ''-'' \<rparr>
   \<and> (\<forall>blocks. stats_row ev blocks \<noteq> Inl DivisionByZero)
   \<and> (\<forall>blocks. avg_effort ev blocks \<noteq> Inl DivisionByZero \<and> avg_reward ev blocks \<noteq> Inl DivisionByZero)"
proof -
  have a: "stats_row ev blocks \<noteq> Inl DivisionByZero" for blocks
    using avg_effort_never_fails[of ev blocks] avg_reward_never_fails[of ev blocks]
    by (auto simp: stats_row_def split: sum.splits)
  have n: "stats_row ev None =
     Inr \<lparr> st_latest_height = ''-'', st_avg_effort = ''0%'', st_avg_reward = ''0'', st_last_found = ''-'' \<rparr>"
    by (simp add: stats_row_def avg_effort_def avg_reward_def latest_height_def last_found_def)
  have e: "stats_row ev (Some []) =
     Inr \<lparr> st_latest_height = ''-'', st_avg_effort = ''0%'', st_avg_reward = ''0'', st_last_found = ''-'' \<rparr>"
    by (simp add: stats_row_def avg_effort_def avg_reward_def latest_height_def last_found_def)
  from a n e avg_effort_never_fails avg_reward_never_fails show ?thesis by blast
qed

subsection \<open>formatHashRate\<close>

lemma fl_5_2: "fl (5 / 2) = Fin (5 / 2)"
  by (rule fl_exact[of 1 _ "5 * 2 ^ 50"]) (simp_all add: pow2_def)

lemma fl_3_2: "fl (3 / 2) = Fin (3 / 2)"
  by (rule fl_exact[of 0 _ "3 * 2 ^ 51"]) (simp_all add: pow2_def)

lemma fl_999_999: "fl (999999 / 1000) = Fin (8796084226114978 / 2 ^ 43)"
  using fl_eval[of 9 "999999 / 1000" 8796084226114978] by (simp add: pow2_def)

lemma fl_1000_005: "fl (1000005000000001 / 1000000000000) = Fin (8796137002673120 / 2 ^ 43)"
  using fl_eval[of 9 "1000005000000001 / 1000000000000" 8796137002673120] by (simp add: pow2_def)

text \<open>
  C3, as stated, fails in two places. The displayed magnitude is not always in
  \<open>[1, 1000)\<close> when a unit's threshold is met: there is no unit above TH/s, so \<open>10^15\<close>
  H/s shows as 1000.00 TH/s and 1000005000000001 H/s as 1000.01 TH/s, and \<open>toFixed\<close>
  rounds, so 999999 H/s shows as 1000.00 KH/s. And the quotient is not always printed
  with two decimal places: \<open>toFixed\<close> switches to exponent notation at \<open>10^21\<close>, which
  the quotient by \<open>10^12\<close> reaches at the binary64 number \<open>1e33\<close>
  (999999999999999945575230987042816), and the raw value at \<open>-10^21\<close>.
\<close>

theorem formatHashRate_magnitude_1000:
  "formatHashRate example_env (Some (Fin (10 ^ 15))) = ''1000.00 TH/s''
   \<and> formatHashRate example_env (Some (Fin 999999)) = ''1000.00 KH/s''
   \<and> formatHashRate example_env (Some (Fin 1000005000000001)) = ''1000.01 TH/s''
   \<and> formatHashRate example_env (Some (Fin 999999999999999945575230987042816)) = ''1e+21 TH/s''
   \<and> formatHashRate example_env (Some (Fin (- (10 ^ 21)))) = ''-1e+21 H/s''
   \<and> \<not> decimal_with_places 2 ''1e+21''
   \<and> \<not> decimal_with_places 2 ''-1e+21''"
proof -
  have 1: "formatHashRate example_env (Some (Fin (10 ^ 15))) = ''1000.00 TH/s''"
    by (simp add: formatHashRate_def falsy_def num_ge_def num_lt_def num_div_def
        toFixed_eval[of _ 100000] digits_eval)
  have 2: "formatHashRate example_env (Some (Fin 999999)) = ''1000.00 KH/s''"
    by (simp add: formatHashRate_def falsy_def num_ge_def num_lt_def num_div_def fl_999_999
        toFixed_eval[of _ 100000] digits_eval)
  have q: "num_div (Fin 999999999999999945575230987042816) (Fin (10 ^ 12)) = Fin (10 ^ 21)"
    using fl_1e33_quotient by (simp add: num_div_def)
  have 3: "formatHashRate example_env (Some (Fin 999999999999999945575230987042816)) = ''1e+21 TH/s''"
    unfolding formatHashRate_def using q toFixed_1e21[of example_env 2]
    by (simp add: falsy_def num_ge_def num_lt_def)
  have 4: "formatHashRate example_env (Some (Fin (- (10 ^ 21)))) = ''-1e+21 H/s''"
    unfolding formatHashRate_def using toFixed_neg_1e21[of example_env 2]
    by (simp add: falsy_def num_ge_def num_lt_def)
  have 5: "formatHashRate example_env (Some (Fin 1000005000000001)) = ''1000.01 TH/s''"
    by (simp add: formatHashRate_def falsy_def num_ge_def num_lt_def num_div_def fl_1000_005
        toFixed_eval[of _ 100001] digits_eval)
  from 1 2 3 4 5 exponent_notation_no_decimal[of 2] show ?thesis by blast
qed

lemma formatHashRate_refines: "formatHashRate ev hash = spec_formatHashRate ev hash"
proof (cases hash)
  case None
  then show ?thesis by (simp add: formatHashRate_def spec_formatHashRate_def falsy_def)
next
  case (Some h)
  show ?thesis using Some
    by (cases h) (simp_all add: formatHashRate_def spec_formatHashRate_def falsy_def is_zero_def
        spec_zero_input_def hash_units_def Let_def)
qed

lemma formatHashRate_scaled:
  assumes "num_ge h (Fin 1000)" "num_ge (Fin 1000005000000000) h"
  shows "\<exists>n u. formatHashRate ev (Some h) = fixed_digits 2 n @ u \<and> 100 \<le> n \<and> n \<le> 100000
           \<and> u \<in> set (map snd hash_units)"
proof -
  obtain r where h: "h = Fin r" "1000 \<le> r" "r \<le> 1000005000000000"
    using assms by (cases h) (auto simp: num_ge_def num_lt_def)
  have t: "truthy h" using h by simp
  consider "10 ^ 12 \<le> r" | "10 ^ 9 \<le> r" "r < 10 ^ 12" | "10 ^ 6 \<le> r" "r < 10 ^ 9" | "r < 10 ^ 6"
    by linarith
  then show ?thesis
  proof cases
    case 1
    obtain n where "toFixed ev 2 (num_div (Fin r) (Fin (10 ^ 12))) = fixed_digits 2 n" "100 \<le> n" "n \<le> 100000"
      using scaled_display[of "10 ^ 12" r ev] 1 h by auto
    then show ?thesis using 1 h
      by (intro exI[of _ n] exI[of _ "'' TH/s''"])
         (simp add: formatHashRate_def falsy_def num_ge_def num_lt_def hash_units_def)
  next
    case 2
    obtain n where "toFixed ev 2 (num_div (Fin r) (Fin (10 ^ 9))) = fixed_digits 2 n" "100 \<le> n" "n \<le> 100000"
      using scaled_display[of "10 ^ 9" r ev] 2 h by auto
    then show ?thesis using 2 h
      by (intro exI[of _ n] exI[of _ "'' GH/s''"])
         (simp add: formatHashRate_def falsy_def num_ge_def num_lt_def hash_units_def)
  next
    case 3
    obtain n where "toFixed ev 2 (num_div (Fin r) (Fin (10 ^ 6))) = fixed_digits 2 n" "100 \<le> n" "n \<le> 100000"
      using scaled_display[of "10 ^ 6" r ev] 3 h by auto
    then show ?thesis using 3 h
      by (intro exI[of _ n] exI[of _ "'' MH/s''"])
         (simp add: formatHashRate_def falsy_def num_ge_def num_lt_def hash_units_def)
  next
    case 4
    obtain n where "toFixed ev 2 (num_div (Fin r) (Fin (10 ^ 3))) = fixed_digits 2 n" "100 \<le> n" "n \<le> 100000"
      using scaled_display[of "10 ^ 3" r ev] 4 h by auto
    then show ?thesis using 4 h
      by (intro exI[of _ n] exI[of _ "'' KH/s''"])
         (simp add: formatHashRate_def falsy_def num_ge_def num_lt_def hash_units_def)
  qed
qed

lemma formatHashRate_two_places:
  assumes "truthy h" "num_lt (Fin (- (10 ^ 21))) h" "num_lt h (Fin (10 ^ 33 - 65536 * 10 ^ 12))"
  shows "\<exists>s u. formatHashRate ev (Some h) = s @ u \<and> decimal_with_places 2 s
           \<and> u \<in> set ('' H/s'' # map snd hash_units)"
proof -
  obtain r where h: "h = Fin r" "r \<noteq> 0" "- (10 ^ 21) < r" "r < 10 ^ 33 - 65536 * 10 ^ 12"
    using assms by (cases h) (auto simp: num_lt_def)
  consider "10 ^ 12 \<le> r" | "10 ^ 9 \<le> r" "r < 10 ^ 12" | "10 ^ 6 \<le> r" "r < 10 ^ 9"
    | "10 ^ 3 \<le> r" "r < 10 ^ 6" | "r < 10 ^ 3"
    by linarith
  then show ?thesis
  proof cases
    case 1
    have "decimal_with_places 2 (toFixed ev 2 (num_div (Fin r) (Fin (10 ^ 12))))"
      using 1 h by (intro quotient_decimal) simp_all
    then show ?thesis using 1 h
      by (intro exI[of _ "toFixed ev 2 (num_div (Fin r) (Fin (10 ^ 12)))"] exI[of _ "'' TH/s''"])
         (simp add: formatHashRate_def falsy_def num_ge_def num_lt_def hash_units_def)
  next
    case 2
    have "decimal_with_places 2 (toFixed ev 2 (num_div (Fin r) (Fin (10 ^ 9))))"
      using 2 h by (intro quotient_decimal) simp_all
    then show ?thesis using 2 h
      by (intro exI[of _ "toFixed ev 2 (num_div (Fin r) (Fin (10 ^ 9)))"] exI[of _ "'' GH/s''"])
         (simp add: formatHashRate_def falsy_def num_ge_def num_lt_def hash_units_def)
  next
    case 3
    have "decimal_with_places 2 (toFixed ev 2 (num_div (Fin r) (Fin (10 ^ 6))))"
      using 3 h by (intro quotient_decimal) simp_all
    then show ?thesis using 3 h
      by (intro exI[of _ "toFixed ev 2 (num_div (Fin r) (Fin (10 ^ 6)))"] exI[of _ "'' MH/s''"])
         (simp add: formatHashRate_def falsy_def num_ge_def num_lt_def hash_units_def)
  next
    case 4
    have "decimal_with_places 2 (toFixed ev 2 (num_div (Fin r) (Fin (10 ^ 3))))"
      using 4 h by (intro quotient_decimal) simp_all
    then show ?thesis using 4 h
      by (intro exI[of _ "toFixed ev 2 (num_div (Fin r) (Fin (10 ^ 3)))"] exI[of _ "'' KH/s''"])
         (simp add: formatHashRate_def falsy_def num_ge_def num_lt_def hash_units_def)
  next
    case 5
    have "\<bar>val h\<bar> < 10 ^ 21" using 5 h by simp
    then have "decimal_with_places 2 (toFixed ev 2 h)" using h by (intro toFixed_decimal) simp_all
    then show ?thesis using 5 h
      by (intro exI[of _ "toFixed ev 2 h"] exI[of _ "'' H/s''"])
         (simp add: formatHashRate_def falsy_def num_ge_def num_lt_def)
  qed
qed

text \<open>
  C3, amended. On every input \<open>formatHashRate\<close> is the specification's function: \<open>0 H/s\<close>
  for an absent or zero input (and for NaN, the remaining falsy number), otherwise the
  largest unit whose threshold the value meets, the quotient by that threshold, and
  \<open>toFixed(2)\<close>. For a value of at least \<open>10^3\<close> and at most 1000005000000000 (the
  last whole number of H/s that does not show as 1000.01 TH/s) the number displayed
  is \<open>n / 100\<close> with \<open>100 \<le> n \<le> 100000\<close>, that is, in \<open>[1.00, 1000.00]\<close>. For a
  non-zero value above \<open>-10^21\<close> and below \<open>10^33 - 65536 * 10^12\<close>, that is, below the
  binary64 number \<open>1e33\<close>, the number displayed has exactly two decimal places.
\<close>

theorem formatHashRate_units:
  "formatHashRate ev hash = spec_formatHashRate ev hash
   \<and> (num_ge h (Fin 1000) \<and> num_ge (Fin 1000005000000000) h \<longrightarrow>
        (\<exists>n u. formatHashRate ev (Some h) = fixed_digits 2 n @ u \<and> 100 \<le> n \<and> n \<le> 100000
           \<and> u \<in> set (map snd hash_units)))
   \<and> (truthy h \<and> num_lt (Fin (- (10 ^ 21))) h \<and> num_lt h (Fin (10 ^ 33 - 65536 * 10 ^ 12)) \<longrightarrow>
        (\<exists>s u. formatHashRate ev (Some h) = s @ u \<and> decimal_with_places 2 s
           \<and> u \<in> set ('' H/s'' # map snd hash_units)))"
  using formatHashRate_refines[of ev hash] formatHashRate_scaled[of h ev] formatHashRate_two_places[of h ev]
  by simp

theorem formatHashRate_units_witness:
  "formatHashRate example_env None = ''0 H/s''
   \<and> formatHashRate example_env (Some (Fin 0)) = ''0 H/s''
   \<and> formatHashRate example_env (Some (Fin 999)) = ''999.00 H/s''
   \<and> formatHashRate example_env (Some (Fin 1000)) = ''1.00 KH/s''
   \<and> formatHashRate example_env (Some (Fin 2500000)) = ''2.50 MH/s''
   \<and> formatHashRate example_env (Some (Fin 1500000000000)) = ''1.50 TH/s''
   \<and> (\<exists>n u. formatHashRate example_env (Some (Fin 999999)) = fixed_digits 2 n @ u \<and> 100 \<le> n \<and> n \<le> 100000)
   \<and> (\<exists>s u. formatHashRate example_env (Some (Fin (10 ^ 32))) = s @ u \<and> decimal_with_places 2 s)"
proof -
  note ev = spec_formatHashRate_def spec_zero_input_def is_zero_def hash_units_def num_ge_def num_lt_def
    num_div_def digits_eval
  have 1: "formatHashRate example_env None = ''0 H/s''"
    using formatHashRate_units[of example_env None, THEN conjunct1] by (simp add: ev)
  have 2: "formatHashRate example_env (Some (Fin 0)) = ''0 H/s''"
    using formatHashRate_units[of example_env "Some (Fin 0)", THEN conjunct1] by (simp add: ev)
  have 3: "formatHashRate example_env (Some (Fin 999)) = ''999.00 H/s''"
    using formatHashRate_units[of example_env "Some (Fin 999)", THEN conjunct1]
    by (simp add: ev toFixed_eval[of _ 99900])
  have 4: "formatHashRate example_env (Some (Fin 1000)) = ''1.00 KH/s''"
    using formatHashRate_units[of example_env "Some (Fin 1000)", THEN conjunct1]
    by (simp add: ev toFixed_eval[of _ 100])
  have 5: "formatHashRate example_env (Some (Fin 2500000)) = ''2.50 MH/s''"
    using formatHashRate_units[of example_env "Some (Fin 2500000)", THEN conjunct1]
    by (simp add: ev fl_5_2 toFixed_eval[of _ 250])
  have 6: "formatHashRate example_env (Some (Fin 1500000000000)) = ''1.50 TH/s''"
    using formatHashRate_units[of example_env "Some (Fin 1500000000000)", THEN conjunct1]
    by (simp add: ev fl_3_2 toFixed_eval[of _ 150])
  have 7: "\<exists>n u. formatHashRate example_env (Some (Fin 999999)) = fixed_digits 2 n @ u \<and> 100 \<le> n \<and> n \<le> 100000"
    using formatHashRate_units[of example_env None "Fin 999999", THEN conjunct2, THEN conjunct1]
    by (simp add: num_ge_def num_lt_def) blast
  have 8: "\<exists>s u. formatHashRate example_env (Some (Fin (10 ^ 32))) = s @ u \<and> decimal_with_places 2 s"
    using formatHashRate_units[of example_env None "Fin (10 ^ 32)", THEN conjunct2, THEN conjunct2]
    by (simp add: num_lt_def) blast
  from 1 2 3 4 5 6 7 8 show ?thesis by blast
qed

subsection \<open>formatXMR\<close>

text \<open>
  C4, as stated, fails for large amounts: the quotient by \<open>10^12\<close> is printed by
  \<open>toFixed\<close>, which switches to exponent notation at \<open>10^21\<close>. At the atomic amount
  999999999999999945575230987042816 (the binary64 number \<open>1e33\<close>) both functions
  return \<open>1e+21\<close>, which has no decimal places at all.
\<close>

theorem formatXMR_exponent_notation:
  "formatXMR example_env (Some (Fin 999999999999999945575230987042816)) = ''1e+21''
   \<and> formatXMR_local example_env (Some (Fin 999999999999999945575230987042816)) = ''1e+21''
   \<and> \<not> decimal_with_places 8 (formatXMR example_env (Some (Fin 999999999999999945575230987042816)))
   \<and> \<not> decimal_with_places 4 (formatXMR_local example_env (Some (Fin 999999999999999945575230987042816)))
   \<and> formatXMR example_env (Some (Fin (- 999999999999999945575230987042816))) = ''-1e+21''
   \<and> formatXMR_local example_env (Some (Fin (- 999999999999999945575230987042816))) = ''-1e+21''"
proof -
  have q: "num_div (Fin 999999999999999945575230987042816) (Fin (10 ^ 12)) = Fin (10 ^ 21)"
    using fl_1e33_quotient by (simp add: num_div_def)
  have qn: "num_div (Fin (- 999999999999999945575230987042816)) (Fin (10 ^ 12)) = Fin (- (10 ^ 21))"
    using fl_1e33_quotient fl_neg[of "999999999999999945575230987042816 / 10 ^ 12"]
    by (simp add: num_div_def)
  have 1: "formatXMR example_env (Some (Fin 999999999999999945575230987042816)) = ''1e+21''"
    unfolding formatXMR_def using q toFixed_1e21[of example_env 8] by (simp add: falsy_def)
  have 2: "formatXMR_local example_env (Some (Fin 999999999999999945575230987042816)) = ''1e+21''"
    unfolding formatXMR_local_def using q toFixed_1e21[of example_env 4] by (simp add: falsy_def)
  have 3: "\<not> decimal_with_places 8 (formatXMR example_env (Some (Fin 999999999999999945575230987042816)))"
    using exponent_notation_no_decimal(1)[of 8] unfolding 1 .
  have 4: "\<not> decimal_with_places 4 (formatXMR_local example_env (Some (Fin 999999999999999945575230987042816)))"
    using exponent_notation_no_decimal(1)[of 4] unfolding 2 .
  have 5: "formatXMR example_env (Some (Fin (- 999999999999999945575230987042816))) = ''-1e+21''"
    unfolding formatXMR_def using qn toFixed_neg_1e21[of example_env 8] by (simp add: falsy_def)
  have 6: "formatXMR_local example_env (Some (Fin (- 999999999999999945575230987042816))) = ''-1e+21''"
    unfolding formatXMR_local_def using qn toFixed_neg_1e21[of example_env 4] by (simp add: falsy_def)
  from 1 2 3 4 5 6 show ?thesis by blast
qed

lemma formatXMR_refines:
  "formatXMR ev atomic = spec_formatXMR ev 8 atomic"
  "formatXMR_local ev atomic = spec_formatXMR ev 4 atomic"
proof -
  show "formatXMR ev atomic = spec_formatXMR ev 8 atomic"
  proof (cases atomic)
    case None then show ?thesis by (simp add: formatXMR_def spec_formatXMR_def falsy_def)
  next
    case (Some a) then show ?thesis
      by (cases a) (simp_all add: formatXMR_def spec_formatXMR_def falsy_def is_zero_def spec_zero_input_def)
  qed
  show "formatXMR_local ev atomic = spec_formatXMR ev 4 atomic"
  proof (cases atomic)
    case None then show ?thesis by (simp add: formatXMR_local_def spec_formatXMR_def falsy_def)
  next
    case (Some a) then show ?thesis
      by (cases a) (simp_all add: formatXMR_local_def spec_formatXMR_def falsy_def is_zero_def spec_zero_input_def)
  qed
qed

lemma formatXMR_decimal:
  assumes "truthy a" "num_lt (Fin (- (10 ^ 33 - 65536 * 10 ^ 12))) a" "num_lt a (Fin (10 ^ 33 - 65536 * 10 ^ 12))"
  shows "decimal_with_places 8 (formatXMR ev (Some a))"
    and "decimal_with_places 4 (formatXMR_local ev (Some a))"
proof -
  obtain r where a: "a = Fin r" "r \<noteq> 0" "\<bar>r\<bar> < 10 ^ 33 - 65536 * 10 ^ 12"
    using assms by (cases a) (auto simp: num_lt_def)
  have b: "\<bar>r\<bar> / 10 ^ 12 < 10 ^ 21 - 2 ^ 16" using a(3) by simp
  show "decimal_with_places 8 (formatXMR ev (Some a))"
    using quotient_decimal[of 8 r "10 ^ 12" ev] a b by (simp add: formatXMR_def falsy_def)
  show "decimal_with_places 4 (formatXMR_local ev (Some a))"
    using quotient_decimal[of 4 r "10 ^ 12" ev] a b by (simp add: formatXMR_local_def falsy_def)
qed

text \<open>
  C4, amended. On every input both \<open>formatXMR\<close> functions are the specification's
  function: \<open>0\<close> for an absent or zero input (and for NaN, the remaining falsy number),
  otherwise the quotient by \<open>10^12\<close> printed by \<open>toFixed\<close>, the exported one with 8
  digits and the chain visualisation's with 4. For a non-zero input of magnitude below
  \<open>10^33 - 65536 * 10^12\<close>, that is, below the binary64 number \<open>1e33\<close>, the result is a
  decimal numeral with exactly 8, respectively 4, digits after the point.
\<close>

theorem formatXMR_places:
  "formatXMR ev atomic = spec_formatXMR ev 8 atomic
   \<and> formatXMR_local ev atomic = spec_formatXMR ev 4 atomic
   \<and> (truthy a \<and> num_lt (Fin (- (10 ^ 33 - 65536 * 10 ^ 12))) a \<and> num_lt a (Fin (10 ^ 33 - 65536 * 10 ^ 12)) \<longrightarrow>
        decimal_with_places 8 (formatXMR ev (Some a))
        \<and> decimal_with_places 4 (formatXMR_local ev (Some a)))"
  using formatXMR_refines[of ev atomic] formatXMR_decimal[of a ev]
  by simp

theorem formatXMR_places_witness:
  "formatXMR example_env (Some (Fin 1000000000000)) = ''1.00000000''
   \<and> formatXMR_local example_env (Some (Fin 1000000000000)) = ''1.0000''
   \<and> formatXMR example_env None = ''0''
   \<and> formatXMR_local example_env (Some (Fin 0)) = ''0''
   \<and> decimal_with_places 8 (formatXMR example_env (Some (Fin 1000000000000)))
   \<and> decimal_with_places 4 (formatXMR_local example_env (Some (Fin 1000000000000)))"
proof -
  note ev = spec_formatXMR_def spec_zero_input_def is_zero_def num_div_def digits_eval
  note A = formatXMR_places[of example_env "Some (Fin 1000000000000)" "Fin 1000000000000"]
  have 1: "formatXMR example_env (Some (Fin 1000000000000)) = ''1.00000000''"
    using A[THEN conjunct1] by (simp add: ev toFixed_eval[of _ 100000000])
  have 2: "formatXMR_local example_env (Some (Fin 1000000000000)) = ''1.0000''"
    using A[THEN conjunct2, THEN conjunct1] by (simp add: ev toFixed_eval[of _ 10000])
  have 3: "formatXMR example_env None = ''0''"
    using formatXMR_places[of example_env None, THEN conjunct1] by (simp add: ev)
  have 4: "formatXMR_local example_env (Some (Fin 0)) = ''0''"
    using formatXMR_places[of example_env "Some (Fin 0)", THEN conjunct2, THEN conjunct1] by (simp add: ev)
  have 5: "decimal_with_places 8 (formatXMR example_env (Some (Fin 1000000000000)))
           \<and> decimal_with_places 4 (formatXMR_local example_env (Some (Fin 1000000000000)))"
    using A[THEN conjunct2, THEN conjunct2] by (simp add: num_lt_def)
  from 1 2 3 4 5 show ?thesis by blast
qed

subsection \<open>Averages of the stats bar\<close>

lemma take_min_length: "take (min (length bs) 10) bs = take 10 bs"
  by (simp add: min_def)

lemma sum_effort_foldl:
  "sum_effort bs = foldl num_add (Fin 0) (map (\<lambda>b. or_else (b_effort b) (Fin 0)) bs)"
  by (simp add: sum_effort_def foldl_map)

lemma sum_value_foldl:
  "sum_value bs = foldl num_add (Fin 0) (map (\<lambda>b. or_else (Some (b_value b)) (Fin 0)) bs)"
  by (simp add: sum_value_def foldl_map)

lemma spec_avg_reward_sample:
  "spec_avg_reward ev bs =
     formatXMR_local ev
       (Some (num_div (foldl num_add (Fin 0) (map b_value (take 10 bs))) (Fin (of_nat (min (length bs) 10)))))"
  by (simp add: spec_avg_reward_def Let_def take_min_length)

lemma zeq_value: "zeq (or_else (Some (b_value b)) (Fin 0)) (b_value (nan_value_as_zero b))"
  by (cases "b_value b") (simp_all add: nan_value_as_zero_def or_else_def zeq_def is_zero_def)

lemma sum_value_zeq:
  "zeq (sum_value bs) (foldl num_add (Fin 0) (map b_value (map nan_value_as_zero bs)))"
proof -
  have "list_all2 zeq (map (\<lambda>b. or_else (Some (b_value b)) (Fin 0)) bs)
          (map b_value (map nan_value_as_zero bs))"
    by (induction bs) (simp_all add: zeq_value)
  then show ?thesis unfolding sum_value_foldl by (intro zeq_foldl) simp_all
qed

lemma avg_effort_refines:
  assumes "bs \<noteq> []"
  shows "avg_effort ev (Some bs) = Inr (spec_avg_effort ev bs)"
  using assms by (simp add: avg_effort_def spec_avg_effort_def spec_effort_average_def
      checked_div_sample_count take_min_length sum_effort_foldl Let_def)

lemma avg_effort_decimal:
  assumes "num_lt (Fin (- (10 ^ 21))) (spec_effort_average bs)" "num_lt (spec_effort_average bs) (Fin (10 ^ 21))"
  shows "decimal_with_places 1 (toFixed ev 1 (spec_effort_average bs))"
proof -
  have "is_finite (spec_effort_average bs) \<and> - (10 ^ 21) < val (spec_effort_average bs)
          \<and> val (spec_effort_average bs) < 10 ^ 21"
    using assms by (rule num_range_finite)
  then show ?thesis by (intro toFixed_decimal) (simp_all add: abs_less_iff)
qed

lemma avg_reward_refines:
  assumes "bs \<noteq> []"
  shows "avg_reward ev (Some bs) = Inr (spec_avg_reward ev (map nan_value_as_zero bs))"
proof -
  have n: "(0 :: rat) < of_nat (min (length bs) 10)" using assms by (simp add: min_def)
  have "zeq (num_div (sum_value (take 10 bs)) (Fin (of_nat (min (length bs) 10))))
            (num_div (foldl num_add (Fin 0) (map b_value (map nan_value_as_zero (take 10 bs))))
                     (Fin (of_nat (min (length bs) 10))))"
    using sum_value_zeq[of "take 10 bs"] n by (rule zeq_num_div)
  then have "formatXMR_local ev (Some (num_div (sum_value (take 10 bs)) (Fin (of_nat (min (length bs) 10)))))
      = spec_avg_reward ev (map nan_value_as_zero bs)"
    unfolding spec_avg_reward_sample by (simp add: take_map zeq_formatXMR_local)
  then show ?thesis using assms by (simp add: avg_reward_def checked_div_sample_count)
qed

lemma spec_avg_reward_no_nan:
  assumes "list_all (\<lambda>b. b_value b \<noteq> NaN) (take 10 bs)"
  shows "spec_avg_reward ev (map nan_value_as_zero bs) = spec_avg_reward ev bs"
proof -
  have "map nan_value_as_zero (take 10 bs) = take 10 bs"
    using assms by (intro map_idI) (simp add: list_all_iff nan_value_as_zero_def)
  then show ?thesis unfolding spec_avg_reward_sample by (simp add: take_map)
qed

text \<open>
  C7, as stated, fails for the average effort: it is printed by \<open>toFixed(1)\<close>, which
  switches to exponent notation at \<open>10^21\<close>, so a block of effort \<open>10^21\<close> (efforts are
  unbounded above) gives the average \<open>1e+21%\<close>, not a number with one decimal place. And
  the reward summed is \<open>value || 0\<close>, not the value field: with the values NaN and
  \<open>2 * 10^12\<close> the average reward shown is 1.0000, where the sum of the value fields is
  NaN and the four-decimal formatter would give 0.
\<close>

theorem avg_effort_exponent_notation:
  "avg_effort example_env (Some [block_with (Some (Fin (10 ^ 21))) (Fin 1000000000000)]) = Inr ''1e+21%''
   \<and> avg_effort example_env (Some [block_with (Some (Fin (- (10 ^ 21)))) (Fin 1000000000000)]) = Inr ''-1e+21%''
   \<and> \<not> decimal_with_places 1 ''1e+21''
   \<and> \<not> decimal_with_places 1 ''-1e+21''
   \<and> avg_reward example_env (Some [block_with None NaN, block_with None (Fin 2000000000000)]) = Inr ''1.0000''
   \<and> spec_avg_reward example_env [block_with None NaN, block_with None (Fin 2000000000000)] = ''0''"
proof -
  let ?bs = "[block_with None NaN, block_with None (Fin 2000000000000)]"
  let ?b = "block_with (Some (Fin (10 ^ 21))) (Fin 1000000000000)"
  let ?c = "block_with (Some (Fin (- (10 ^ 21)))) (Fin 1000000000000)"
  have fp: "fl 1000000000000000000000 = Fin 1000000000000000000000"
    using fl_1e21 by simp
  have fn: "fl (- 1000000000000000000000) = Fin (- 1000000000000000000000)"
    using fl_neg[of "10 ^ 21"] fl_1e21 by simp
  have eb: "spec_effort_average [?b] = Fin (10 ^ 21)"
    by (simp add: spec_effort_average_def Let_def block_with_def or_else_def num_add_def num_div_def fp)
  have ec: "spec_effort_average [?c] = Fin (- (10 ^ 21))"
    by (simp add: spec_effort_average_def Let_def block_with_def or_else_def num_add_def num_div_def fn)
  have 1: "avg_effort example_env (Some [?b]) = Inr ''1e+21%''"
    using avg_effort_refines[of "[?b]" example_env] eb toFixed_1e21[of example_env 1]
    by (simp add: spec_avg_effort_def)
  have 2: "avg_effort example_env (Some [?c]) = Inr ''-1e+21%''"
    using avg_effort_refines[of "[?c]" example_env] ec toFixed_neg_1e21[of example_env 1]
    by (simp add: spec_avg_effort_def)
  have s: "sum_value (take 10 ?bs) = Fin 2000000000000"
    by (simp add: sum_value_def block_with_def or_else_def num_add_def signed_zero_def)
  have c: "checked_div (Fin 2000000000000) (sample_count ?bs) = Inr (Fin 1000000000000)"
    by (simp add: checked_div_sample_count num_div_def)
  have 3: "avg_reward example_env (Some ?bs) = Inr ''1.0000''"
    unfolding avg_reward_def using s c
    by (simp add: formatXMR_local_def falsy_def num_div_def toFixed_eval[of _ 10000] digits_eval)
  have 4: "spec_avg_reward example_env ?bs = ''0''"
    by (simp add: spec_avg_reward_def block_with_def num_add_def num_div_def formatXMR_local_def falsy_def)
  from 1 2 3 4 exponent_notation_no_decimal[of 1] show ?thesis by blast
qed

text \<open>
  C7, amended. For every non-empty block sequence the averages are taken over the first
  \<open>min(length, 10)\<close> blocks. The average effort is the sum of the efforts (defaulting to
  0) divided by the sample count, printed by \<open>toFixed(1)\<close>: a number with exactly one
  decimal place when that quotient lies strictly between \<open>-10^21\<close> and \<open>10^21\<close>. The
  average reward is the sum of the value fields, a NaN value counting as 0, divided by
  the sample count and formatted by the four-decimal \<open>formatXMR\<close>; when no sampled value
  is NaN it is the sum of the value fields as they are.
\<close>

theorem stats_averages:
  "bs \<noteq> [] \<longrightarrow>
     avg_effort ev (Some bs) = Inr (spec_avg_effort ev bs)
     \<and> (num_lt (Fin (- (10 ^ 21))) (spec_effort_average bs) \<and> num_lt (spec_effort_average bs) (Fin (10 ^ 21))
          \<longrightarrow> (\<exists>s. avg_effort ev (Some bs) = Inr (s @ ''%'') \<and> decimal_with_places 1 s))
     \<and> avg_reward ev (Some bs) = Inr (spec_avg_reward ev (map nan_value_as_zero bs))
     \<and> (list_all (\<lambda>b. b_value b \<noteq> NaN) (take 10 bs)
          \<longrightarrow> avg_reward ev (Some bs) = Inr (spec_avg_reward ev bs))"
proof (intro impI conjI)
  assume ne: "bs \<noteq> []"
  show e: "avg_effort ev (Some bs) = Inr (spec_avg_effort ev bs)"
    using ne by (rule avg_effort_refines)
  show r: "avg_reward ev (Some bs) = Inr (spec_avg_reward ev (map nan_value_as_zero bs))"
    using ne by (rule avg_reward_refines)
  {
    assume "num_lt (Fin (- (10 ^ 21))) (spec_effort_average bs) \<and> num_lt (spec_effort_average bs) (Fin (10 ^ 21))"
    then have "decimal_with_places 1 (toFixed ev 1 (spec_effort_average bs))"
      using avg_effort_decimal[of bs ev] by simp
    then show "\<exists>s. avg_effort ev (Some bs) = Inr (s @ ''%'') \<and> decimal_with_places 1 s"
      using e by (intro exI[of _ "toFixed ev 1 (spec_effort_average bs)"]) (simp add: spec_avg_effort_def)
  }
  {
    assume "list_all (\<lambda>b. b_value b \<noteq> NaN) (take 10 bs)"
    then show "avg_reward ev (Some bs) = Inr (spec_avg_reward ev bs)"
      using r spec_avg_reward_no_nan[of bs ev] by simp
  }
qed

theorem stats_averages_witness:
  "avg_effort example_env
      (Some [block_with (Some (Fin 10)) (Fin 1000000000000),
             block_with (Some (Fin 20)) (Fin 2000000000000),
             block_with (Some (Fin 30)) (Fin 3000000000000)]) = Inr ''20.0%''
   \<and> decimal_with_places 1 ''20.0''
   \<and> avg_reward example_env
      (Some [block_with (Some (Fin 10)) (Fin 1000000000000),
             block_with (Some (Fin 20)) (Fin 2000000000000),
             block_with (Some (Fin 30)) (Fin 3000000000000)]) = Inr ''2.0000''
   \<and> formatXMR_local example_env (Some (Fin 2000000000000)) = ''2.0000''"
proof -
  let ?bs = "[block_with (Some (Fin 10)) (Fin 1000000000000),
             block_with (Some (Fin 20)) (Fin 2000000000000),
             block_with (Some (Fin 30)) (Fin 3000000000000)]"
  have ne: "?bs \<noteq> []" by simp
  note A = stats_averages[of ?bs example_env, rule_format, OF ne]
  have f: "formatXMR_local example_env (Some (Fin 2000000000000)) = ''2.0000''"
    by (simp add: formatXMR_local_def falsy_def num_div_def toFixed_eval[of _ 20000] digits_eval)
  have q: "spec_effort_average ?bs = Fin 20"
    by (simp add: spec_effort_average_def Let_def block_with_def or_else_def num_add_def num_div_def)
  have e: "spec_avg_effort example_env ?bs = ''20.0%''"
    unfolding spec_avg_effort_def q by (simp add: toFixed_eval[of _ 200] digits_eval)
  have v: "spec_avg_reward example_env ?bs = ''2.0000''"
    unfolding spec_avg_reward_sample using f
    by (simp add: block_with_def num_add_def num_div_def)
  have 1: "avg_effort example_env (Some ?bs) = Inr ''20.0%''"
    using A[THEN conjunct1] e by simp
  have "\<exists>s. avg_effort example_env (Some ?bs) = Inr (s @ ''%'') \<and> decimal_with_places 1 s"
    using A[THEN conjunct2, THEN conjunct1] q by (simp add: num_lt_def)
  then have 2: "decimal_with_places 1 ''20.0''" unfolding 1 by simp
  have 3: "avg_reward example_env (Some ?bs) = Inr ''2.0000''"
    using A[THEN conjunct2, THEN conjunct2, THEN conjunct2] v by (simp add: block_with_def)
  from 1 2 3 f show ?thesis by blast
qed

end
